theory Spec2Isabelle
  imports Complex_Main "HOL-Library.Log_Nat"
begin

unbundle bit_operations_syntax

section \<open>Helpers (helpers.py) and Python arithmetic\<close>

text \<open>
  Timestamps are the parsed values of the strings \<^verbatim>\<open>%Y-%m-%d %H:%M:%S.%f\<close>: an
  integer number of microseconds. A Python float is the real it denotes. Distances,
  durations in seconds and their sums and quotients are taken as exact reals; the averaged
  speeds, which are rounded to two decimals, are computed as the interpreter computes
  them, in binary64 (\<open>to_double\<close> below). A coordinate dictionary
  \<^verbatim>\<open>{'x': .., 'y': ..}\<close> is a pair.
\<close>

type_synonym coords = "real \<times> real"

datatype error =
  AttributeError | KeyError | TypeError | IndexError | SystemExit | ProgrammingError

definition get_distance :: "coords \<Rightarrow> coords \<Rightarrow> real" where
  "get_distance coord1 coord2 =
     sqrt ((fst coord1 - fst coord2) ^ 2 + (snd coord1 - snd coord2) ^ 2)"

text \<open>\<^verbatim>\<open>timedelta.total_seconds()\<close> of a difference of \<open>d\<close> microseconds.\<close>

definition total_seconds :: "int \<Rightarrow> real" where
  "total_seconds d = real_of_int d / 1000000"

definition get_time_delta :: "int \<Rightarrow> int \<Rightarrow> real" where
  "get_time_delta prev_loc_time curr_loc_time = total_seconds (curr_loc_time - prev_loc_time)"

text \<open>The nearest integer, halves to the even neighbour.\<close>

definition round_half_even :: "real \<Rightarrow> int" where
  "round_half_even x =
     (let f = \<lfloor>x\<rfloor> in
      if x - of_int f < 1 / 2 then f
      else if 1 / 2 < x - of_int f then f + 1
      else if even f then f else f + 1)"

text \<open>
  Binary64 arithmetic. \<open>binade x\<close> is the exponent \<open>e\<close> with
  \<open>2 powi e \<le> \<bar>x\<bar> < 2 powi (e + 1)\<close> (lemma \<open>binade_bounds\<close>), found from the
  bit length of the integer part of \<open>\<bar>x\<bar>\<close>, or of its inverse below 1. \<open>to_double x\<close> is
  the double nearest to \<open>x\<close>, halves to the even significand: a multiple of
  \<open>2 powi (e - 52)\<close> in the normal range and of \<open>2 powi - 1074\<close> below it. An
  operation on floats returns \<open>to_double\<close> of the exact result. Results beyond the
  largest double (infinities, NaN) are not modelled.
\<close>

definition binade :: "real \<Rightarrow> int" where
  "binade x = (if 1 \<le> \<bar>x\<bar> then bitlen \<lfloor>\<bar>x\<bar>\<rfloor> - 1 else - bitlen (\<lceil>1 / \<bar>x\<bar>\<rceil> - 1))"

definition to_double :: "real \<Rightarrow> real" where
  "to_double x =
     (if x = 0 then 0
      else (let e = max (binade x) (- 1022);
                u = 2 powi (e - 52)
            in of_int (round_half_even (x / u)) * u))"

text \<open>
  \<^verbatim>\<open>round(x, 2)\<close> on a float: the decimal with two places nearest to the exact value of
  \<open>x\<close>, halves to the even digit (the correctly rounded conversion to a decimal string),
  read back as a double.
\<close>

definition py_round2 :: "real \<Rightarrow> real" where
  "py_round2 x = to_double (of_int (round_half_even (x * 100)) / 100)"

text \<open>
  \<^verbatim>\<open>sum(xs) / len(xs)\<close> on a list of floats: \<^verbatim>\<open>sum\<close> adds from the left, starting
  from 0 and rounding after each addition (the accumulation of CPython up to version 3.11;
  later versions carry a compensation term); the quotient by the length is rounded once.
\<close>

fun py_sum :: "real \<Rightarrow> real list \<Rightarrow> real" where
  "py_sum acc [] = acc"
| "py_sum acc (x # xs) = py_sum (to_double (acc + x)) xs"

definition py_mean :: "real list \<Rightarrow> real" where
  "py_mean xs = to_double (py_sum 0 xs / real (length xs))"

text \<open>\<^verbatim>\<open>timedelta(seconds=s)\<close>, in microseconds.\<close>

definition timedelta_seconds :: "real \<Rightarrow> int" where
  "timedelta_seconds s = round_half_even (s * 1000000)"

section \<open>Data model (models.py)\<close>

record trip =
  trip_carry_num :: int
  trip_start_time :: int
  trip_finish_time :: "int option"
  trip_origin :: int
  trip_dest :: "int option"
  travel_time :: real
  distance :: real
  trip_avg_speed :: real
  speeds :: "real list"
  latest_coords :: "coords option"

definition Trip :: "int \<Rightarrow> int \<Rightarrow> int \<Rightarrow> trip" where
  "Trip carry_no start start_loc =
     \<lparr>trip_carry_num = carry_no, trip_start_time = start, trip_finish_time = None,
      trip_origin = start_loc, trip_dest = None, travel_time = 0, distance = 0,
      trip_avg_speed = 0, speeds = [], latest_coords = None\<rparr>"

definition append_speed :: "real \<Rightarrow> trip \<Rightarrow> trip" where
  "append_speed speed t = t\<lparr>speeds := speeds t @ [speed]\<rparr>"

definition append_coords :: "coords \<Rightarrow> trip \<Rightarrow> trip" where
  "append_coords c t =
     (case latest_coords t of
        Some prev \<Rightarrow> t\<lparr>distance := distance t + get_distance prev c, latest_coords := Some c\<rparr>
      | None \<Rightarrow> t\<lparr>latest_coords := Some c\<rparr>)"

definition Trip_finished :: "int \<Rightarrow> int \<Rightarrow> trip \<Rightarrow> trip" where
  "Trip_finished location time t =
     t\<lparr>trip_avg_speed :=
          (if speeds t = [] then 0
           else py_round2 (py_mean (speeds t))),
       trip_finish_time := Some time,
       travel_time := total_seconds (time - trip_start_time t),
       trip_dest := Some location\<rparr>"

record carry =
  carry_num :: int
  carry_start_time :: int
  carry_finish_time :: "int option"
  unit_count :: "int option"
  carry_origin :: int
  carry_dest :: "int option"
  trips :: "trip list"
  stow_time :: real
  dock_time :: real
  total_distance :: real
  avg_trip_distance :: real
  avg_trip_time :: real

definition append_trip :: "int \<Rightarrow> int \<Rightarrow> carry \<Rightarrow> carry" where
  "append_trip start start_loc c = c\<lparr>trips := trips c @ [Trip (carry_num c) start start_loc]\<rparr>"

definition Carry :: "int \<Rightarrow> int \<Rightarrow> int \<Rightarrow> carry" where
  "Carry carry_no start start_loc =
     append_trip start start_loc
       \<lparr>carry_num = carry_no, carry_start_time = start, carry_finish_time = None,
        unit_count = None, carry_origin = start_loc, carry_dest = None, trips = [],
        stow_time = 0, dock_time = 0, total_distance = 0, avg_trip_distance = 0,
        avg_trip_time = 0\<rparr>"

definition add_stow_time :: "int \<Rightarrow> int \<Rightarrow> carry \<Rightarrow> carry" where
  "add_stow_time prev_loc_time curr_loc_time c =
     c\<lparr>stow_time := stow_time c + get_time_delta prev_loc_time curr_loc_time\<rparr>"

definition add_dock_time :: "int \<Rightarrow> int \<Rightarrow> carry \<Rightarrow> carry" where
  "add_dock_time prev_loc_time curr_loc_time c =
     c\<lparr>dock_time := dock_time c + get_time_delta prev_loc_time curr_loc_time\<rparr>"

text \<open>
  The loop of \<^verbatim>\<open>Carry.finished\<close>: the pair is
  (\<^verbatim>\<open>self.total_distance\<close>, \<^verbatim>\<open>travel_time_accumulator\<close>).
\<close>

fun accumulate_trips :: "trip list \<Rightarrow> real \<times> real \<Rightarrow> real \<times> real" where
  "accumulate_trips [] acc = acc"
| "accumulate_trips (t # ts) (td, tt) = accumulate_trips ts (td + distance t, tt + travel_time t)"

definition Carry_finished :: "int \<Rightarrow> int \<Rightarrow> int \<Rightarrow> carry \<Rightarrow> carry" where
  "Carry_finished location item_count time c =
     (let c1 = c\<lparr>carry_dest := Some location, unit_count := Some item_count,
                  carry_finish_time := Some time\<rparr>;
          acc = accumulate_trips (trips c1) (total_distance c1, 0);
          c2 = c1\<lparr>total_distance := fst acc\<rparr>;
          trip_count = length (trips c2)
      in if trip_count > 0
         then c2\<lparr>avg_trip_distance := total_distance c2 / real trip_count,
                 avg_trip_time := snd acc / real trip_count\<rparr>
         else c2)"

text \<open>
  An open carry: the fields as the constructor leaves them and as every method but
  \<^verbatim>\<open>finished\<close> keeps them (see \<open>Carry_open\<close>, \<open>append_trip_open\<close>,
  \<open>add_stow_time_open\<close>, \<open>add_dock_time_open\<close>, \<open>trips_mutated_open\<close>).
\<close>

definition carry_open :: "carry \<Rightarrow> bool" where
  "carry_open c \<longleftrightarrow>
     carry_finish_time c = None \<and> total_distance c = 0 \<and> avg_trip_distance c = 0 \<and>
     avg_trip_time c = 0 \<and> trips c \<noteq> []"

record task =
  task_id :: int
  task_complete :: bool
  task_model :: string
  task_item_id :: "int option"
  task_origin :: int
  task_dest :: int
  task_start_time :: "int option"
  task_finish_time :: "int option"
  task_avg_speed :: "real option"

definition Task :: "int \<Rightarrow> string \<Rightarrow> int \<Rightarrow> int \<Rightarrow> task" where
  "Task tid mdl orig dst =
     \<lparr>task_id = tid, task_complete = False, task_model = mdl, task_item_id = None,
      task_origin = orig, task_dest = dst, task_start_time = None, task_finish_time = None,
      task_avg_speed = None\<rparr>"

text \<open>
  An item dictionary as \<^verbatim>\<open>__get_load_data\<close> and \<^verbatim>\<open>get_item_data\<close> build it:
  \<open>item_id\<close> is \<^verbatim>\<open>item['id']\<close>.
\<close>

record item =
  item_id :: int
  item_model :: string
  item_origin :: int
  serial_lock :: int
  correct_loc_id :: "int option"

section \<open>The data-access class (database.py)\<close>

record settings =
  pickup_check_distance_trigger :: real
  pickup_check_distance_window :: real
  pickup_post_seconds :: real
  drop_check_distance :: real
  drop_pre_seconds :: real
  rfid_wait_timeout :: int
  activate_queries :: bool

record alert_row =
  alert_id :: int
  alert_loc_id :: int
  alert_item_id :: "int option"
  alert_job_id :: int
  alert_timestamp :: int
  alert_type :: string
  alert_active :: bool
  alert_correct_loc_id :: "int option"

record item_row =
  row_id :: int
  row_item_tag :: string
  row_model :: string
  row_curr_loc_id :: int
  row_serial_lock :: int

record detected_row =
  det_clamp_truck_id :: int
  det_timestamp :: int
  det_item_tag :: string

text \<open>A row of \<^verbatim>\<open>loc_data\<close> joined with the type of its geo-feature.\<close>

record loc_row =
  loc_truck_id :: int
  geo_feature_id :: int
  loc_x :: real
  loc_y :: real
  loc_timestamp :: int
  loc_speed :: real
  clamp_status :: int
  loc_type :: string

text \<open>
  The write methods the monitor invokes, in order. A method called in dry-run mode
  (\<^verbatim>\<open>activate_queries\<close> false) is recorded here although its SQL is not executed.
\<close>

datatype db_call =
    SaveItemLoc int int
  | SaveTask task
  | CreateAlert int string "item list option" int
  | CancelAlert "int option"
  | CancelAlerts string
  | CancelItemAlerts "item list"
  | CancelRemainingTasksAlert int
  | SaveCarries "carry list"
  | SaveJob int "carry list"

text \<open>
  The handler and the tables it reads and writes. \<open>latest_rfid_timestamp\<close> is the
  cell of this truck in \<^verbatim>\<open>clamp_trucks\<close>: \<open>None\<close> when the truck has no row,
  \<open>Some None\<close> when the cell is NULL. \<open>job_active\<close> is the \<^verbatim>\<open>active\<close> column of this
  job's row (\<open>None\<close>: no row). Alert ids are assigned on insert from \<open>next_alert_id\<close>.
\<close>

record database =
  db_config :: settings
  db_job_id :: int
  db_truck_id :: int
  db_active :: bool
  alerts :: "alert_row list"
  next_alert_id :: int
  items :: "item_row list"
  detected_items :: "detected_row list"
  loc_data :: "loc_row list"
  latest_rfid_timestamp :: "int option option"
  job_active :: "int option"
  calls :: "db_call list"

definition db_is_job_active :: "database \<Rightarrow> bool" where
  "db_is_job_active db = (case job_active db of None \<Rightarrow> False | Some a \<Rightarrow> a = 1)"

definition db_has_active_alerts :: "database \<Rightarrow> bool" where
  "db_has_active_alerts db =
     (filter (\<lambda>a. alert_job_id a = db_job_id db \<and> alert_active a \<and>
                  alert_type a \<noteq> ''clamps_closed_event'' \<and>
                  alert_type a \<noteq> ''clamps_closed_warning'') (alerts db) \<noteq> [])"

definition db_loc_has_active_dl_alerts :: "database \<Rightarrow> int \<Rightarrow> bool" where
  "db_loc_has_active_dl_alerts db loc =
     (filter (\<lambda>a. alert_job_id a = db_job_id db \<and> alert_active a \<and>
                  alert_type a = ''drop_location'' \<and> alert_loc_id a = loc) (alerts db) \<noteq> [])"

text \<open>
  \<^verbatim>\<open>__wait_for_rfid_data\<close> polls the truck's latest RFID timestamp once a second, at most
  \<^verbatim>\<open>rfid_wait_timeout\<close> times. On a snapshot of the store every poll reads the same cell;
  \<open>db_tvalue\<close> is \<open>None\<close> after a NULL cell was read, and the loop condition then
  compares a datetime with \<^verbatim>\<open>None\<close>.
\<close>

function wait_for_rfid_data :: "database \<Rightarrow> int \<Rightarrow> int option \<Rightarrow> int \<Rightarrow> error + unit" where
  "wait_for_rfid_data db target_timestamp db_tvalue i =
     (case db_tvalue of
        None \<Rightarrow> Inl TypeError
      | Some v \<Rightarrow>
          if target_timestamp > v \<and> i < rfid_wait_timeout (db_config db)
          then (case latest_rfid_timestamp db of
                  None \<Rightarrow> Inr ()
                | Some result \<Rightarrow> wait_for_rfid_data db target_timestamp result (i + 1))
          else Inr ())"
  by pat_completeness auto
termination
  by (relation "measure (\<lambda>(db, target, tv, i). nat (rfid_wait_timeout (db_config db) - i))") auto

definition item_of_row :: "item_row \<Rightarrow> item" where
  "item_of_row r =
     \<lparr>item_id = row_id r, item_model = row_model r, item_origin = row_curr_loc_id r,
      serial_lock = row_serial_lock r, correct_loc_id = None\<rparr>"

text \<open>\<^verbatim>\<open>GROUP BY item.id\<close>: one row for each id, here the first one met.\<close>

fun group_by_id :: "item_row list \<Rightarrow> int list \<Rightarrow> item_row list" where
  "group_by_id [] seen = []"
| "group_by_id (r # rs) seen =
     (if row_id r \<in> set seen then group_by_id rs seen
      else r # group_by_id rs (row_id r # seen))"

definition get_load_data :: "database \<Rightarrow> int \<Rightarrow> int \<Rightarrow> error + item list" where
  "get_load_data db min_time max_time =
     (case wait_for_rfid_data db max_time (Some 0) 0 of
        Inl e \<Rightarrow> Inl e
      | Inr u \<Rightarrow>
          Inr (map item_of_row
                 (group_by_id
                    (concat (map (\<lambda>d. filter (\<lambda>r. row_item_tag r = det_item_tag d) (items db))
                       (filter (\<lambda>d. det_clamp_truck_id d = db_truck_id db \<and>
                                     min_time \<le> det_timestamp d \<and> det_timestamp d \<le> max_time)
                          (detected_items db)))) [])))"

text \<open>
  The location samples of \<^verbatim>\<open>__get_load_data_inside_circle\<close>
  (\<^verbatim>\<open>ORDER BY timestamp DESC\<close>) and its loop over them, which returns
  \<^verbatim>\<open>load_query_start_time\<close>.
\<close>

definition circle_loc_data :: "database \<Rightarrow> int \<Rightarrow> int \<Rightarrow> loc_row list" where
  "circle_loc_data db min_time max_time =
     rev (sort_key loc_timestamp
            (filter (\<lambda>l. loc_truck_id l = db_truck_id db \<and>
                          min_time \<le> loc_timestamp l \<and> loc_timestamp l \<le> max_time)
               (loc_data db)))"

fun scan_loc_data :: "settings \<Rightarrow> coords \<Rightarrow> loc_row list \<Rightarrow> int \<Rightarrow> int" where
  "scan_loc_data cfg event_coords [] load_query_start_time = load_query_start_time"
| "scan_loc_data cfg event_coords (location # rest) load_query_start_time =
     (if get_distance event_coords (loc_x location, loc_y location)
           \<ge> pickup_check_distance_window cfg
      then loc_timestamp location
      else scan_loc_data cfg event_coords rest load_query_start_time)"

text \<open>The time window \<^verbatim>\<open>__get_load_data_inside_circle\<close> passes to \<^verbatim>\<open>__get_load_data\<close>.\<close>

definition load_window :: "database \<Rightarrow> coords \<Rightarrow> int \<Rightarrow> int \<times> int" where
  "load_window db event_coords event_time =
     (let max_time = event_time;
          min_time = max_time - timedelta_seconds 60;
          locs = circle_loc_data db min_time max_time;
          load_query_start_time = min_time;
          load_query_end_time = max_time + timedelta_seconds (pickup_post_seconds (db_config db))
      in (scan_loc_data (db_config db) event_coords locs load_query_start_time,
          load_query_end_time))"

definition get_load_data_inside_circle :: "database \<Rightarrow> coords \<Rightarrow> int \<Rightarrow> error + item list" where
  "get_load_data_inside_circle db event_coords event_time =
     get_load_data db (fst (load_window db event_coords event_time))
       (snd (load_window db event_coords event_time))"

definition get_drop_data :: "database \<Rightarrow> int \<Rightarrow> int \<Rightarrow> error + item list" where
  "get_drop_data db drop_time max_time =
     get_load_data db (drop_time - timedelta_seconds (drop_pre_seconds (db_config db))) max_time"

definition get_pickup_data :: "database \<Rightarrow> coords \<Rightarrow> int \<Rightarrow> error + int list" where
  "get_pickup_data db pickup_coords pickup_time =
     (case get_load_data_inside_circle db pickup_coords pickup_time of
        Inl e \<Rightarrow> Inl e
      | Inr inner_pickup_items \<Rightarrow> Inr (map item_id inner_pickup_items))"

definition get_item_data :: "database \<Rightarrow> int list \<Rightarrow> item list" where
  "get_item_data db item_ids =
     (if item_ids = [] then []
      else map item_of_row (filter (\<lambda>r. row_id r \<in> set item_ids) (items db)))"

definition save_item_loc :: "item \<Rightarrow> int \<Rightarrow> database \<Rightarrow> database" where
  "save_item_loc it loc db =
     (let db1 = db\<lparr>calls := calls db @ [SaveItemLoc (item_id it) loc]\<rparr>
      in if db_active db1
         then db1\<lparr>items := map (\<lambda>r. if row_id r = item_id it then r\<lparr>row_curr_loc_id := loc\<rparr> else r)
                               (items db1)\<rparr>
         else db1)"

text \<open>The rows one \<^verbatim>\<open>INSERT\<close> of \<^verbatim>\<open>create_alert\<close> adds, before their ids are assigned.\<close>

definition alert_values ::
  "database \<Rightarrow> int \<Rightarrow> string \<Rightarrow> item list option \<Rightarrow> int \<Rightarrow> alert_row list" where
  "alert_values db alert_loc kind wrong event_time =
     (if wrong = None \<or> wrong = Some []
      then [\<lparr>alert_id = 0, alert_loc_id = alert_loc, alert_item_id = None,
             alert_job_id = db_job_id db, alert_timestamp = event_time, alert_type = kind,
             alert_active = True, alert_correct_loc_id = None\<rparr>]
      else map (\<lambda>it. \<lparr>alert_id = 0, alert_loc_id = alert_loc, alert_item_id = Some (item_id it),
                        alert_job_id = db_job_id db, alert_timestamp = event_time,
                        alert_type = kind, alert_active = True,
                        alert_correct_loc_id = correct_loc_id it\<rparr>)
             (case wrong of None \<Rightarrow> [] | Some ws \<Rightarrow> ws))"

fun assign_alert_ids :: "int \<Rightarrow> alert_row list \<Rightarrow> alert_row list" where
  "assign_alert_ids n [] = []"
| "assign_alert_ids n (a # as) = a\<lparr>alert_id := n\<rparr> # assign_alert_ids (n + 1) as"

definition db_create_alert ::
  "int \<Rightarrow> string \<Rightarrow> item list option \<Rightarrow> int \<Rightarrow> database \<Rightarrow> database" where
  "db_create_alert alert_loc kind wrong event_time db =
     (let db1 = db\<lparr>calls := calls db @ [CreateAlert alert_loc kind wrong event_time]\<rparr>;
          new_rows = alert_values db1 alert_loc kind wrong event_time
      in if db_active db1
         then db1\<lparr>alerts := alerts db1 @ assign_alert_ids (next_alert_id db1) new_rows,
                  next_alert_id := next_alert_id db1 + int (length new_rows)\<rparr>
         else db1)"

text \<open>
  A row of a dictionary cursor: column name and value (\<open>None\<close> for NULL).
  \<^verbatim>\<open>get_model_alerts\<close> selects the single column \<^verbatim>\<open>a.id\<close>.
\<close>

type_synonym dict_row = "(string \<times> int option) list"

definition dict_get :: "dict_row \<Rightarrow> string \<Rightarrow> error + int option" where
  "dict_get row k = (case map_of row k of None \<Rightarrow> Inl KeyError | Some v \<Rightarrow> Inr v)"

definition get_model_alerts :: "database \<Rightarrow> item \<Rightarrow> dict_row list" where
  "get_model_alerts db it =
     concat (map (\<lambda>a. map (\<lambda>i. [(''id'', Some (alert_id a))])
                         (filter (\<lambda>i. alert_item_id a = Some (row_id i) \<and>
                                       row_model i = item_model it) (items db)))
               (filter (\<lambda>a. alert_job_id a = db_job_id db \<and> alert_active a \<and>
                             alert_loc_id a = item_origin it) (alerts db)))"

definition cancel_rows :: "(alert_row \<Rightarrow> bool) \<Rightarrow> database \<Rightarrow> database" where
  "cancel_rows cond db =
     db\<lparr>alerts := map (\<lambda>a. if alert_job_id a = db_job_id db \<and> cond a
                            then a\<lparr>alert_active := False\<rparr> else a) (alerts db)\<rparr>"

text \<open>
  The write methods build their SQL with \<^verbatim>\<open>format\<close>. A value that is \<^verbatim>\<open>None\<close> in a
  field formatted without quotes leaves the bare word \<^verbatim>\<open>None\<close> in the statement, which
  the server reads as a column that does not exist, and an \<^verbatim>\<open>INSERT\<close> built from an
  empty list ends after \<^verbatim>\<open>VALUES\<close>: \<^verbatim>\<open>cursor.execute\<close> then raises
  \<^verbatim>\<open>ProgrammingError\<close>. In dry-run mode the statement is built and not executed. What
  the server does with a statement that is well formed (a quoted \<^verbatim>\<open>'None'\<close> in a date
  column, a constraint of the schema) is not modelled.
\<close>

definition cancel_alert :: "int option \<Rightarrow> database \<Rightarrow> error + database" where
  "cancel_alert aid db =
     (let db1 = db\<lparr>calls := calls db @ [CancelAlert aid]\<rparr>
      in if db_active db1
         then (case aid of
                 None \<Rightarrow> Inl ProgrammingError
               | Some i \<Rightarrow> Inr (cancel_rows (\<lambda>a. alert_id a = i) db1))
         else Inr db1)"

definition cancel_alerts :: "string \<Rightarrow> database \<Rightarrow> database" where
  "cancel_alerts kind db =
     (let db1 = db\<lparr>calls := calls db @ [CancelAlerts kind]\<rparr>
      in if \<not> db_active db1 then db1
         else cancel_rows (\<lambda>a. alert_type a = kind) db1)"

definition cancel_item_alerts :: "item list \<Rightarrow> database \<Rightarrow> database" where
  "cancel_item_alerts its db =
     (let db1 = db\<lparr>calls := calls db @ [CancelItemAlerts its]\<rparr>
      in if \<not> db_active db1 then db1
         else fold (\<lambda>it. cancel_rows (\<lambda>a. alert_item_id a = Some (item_id it))) its db1)"

definition cancel_remaining_tasks_alert :: "int \<Rightarrow> database \<Rightarrow> database" where
  "cancel_remaining_tasks_alert loc db =
     (let db1 = db\<lparr>calls := calls db @ [CancelRemainingTasksAlert loc]\<rparr>
      in if db_active db1
         then cancel_rows (\<lambda>a. alert_type a = ''remaining_tasks'' \<and> alert_loc_id a = loc) db1
         else db1)"

text \<open>
  \<^verbatim>\<open>save_task\<close>, \<^verbatim>\<open>save_carries\<close> and \<^verbatim>\<open>save_job\<close> write tables the monitor never
  reads back (\<^verbatim>\<open>job_tasks\<close>, \<^verbatim>\<open>carries\<close>, \<^verbatim>\<open>carry_trips\<close>, \<^verbatim>\<open>jobs\<close>): of a
  statement that is executed only the call is recorded. \<^verbatim>\<open>save_task\<close> formats
  \<^verbatim>\<open>item_id\<close> and \<^verbatim>\<open>avg_speed\<close> without quotes, \<^verbatim>\<open>save_carries\<close> the
  \<^verbatim>\<open>unit_count\<close> of each carry and \<^verbatim>\<open>__save_trips\<close> the \<^verbatim>\<open>dest\<close> of each trip;
  the other fields formatted without quotes are numbers from construction on. The finish
  time of \<^verbatim>\<open>save_job\<close> is the wall clock and is left out.
\<close>

definition save_task :: "task \<Rightarrow> database \<Rightarrow> error + database" where
  "save_task t db =
     (if db_active db \<and> (task_item_id t = None \<or> task_avg_speed t = None)
      then Inl ProgrammingError
      else Inr (db\<lparr>calls := calls db @ [SaveTask t]\<rparr>))"

definition save_trips :: "carry \<Rightarrow> database \<Rightarrow> error + database" where
  "save_trips c db =
     (if db_active db \<and> (trips c = [] \<or> list_ex (\<lambda>t. trip_dest t = None) (trips c))
      then Inl ProgrammingError
      else Inr db)"

text \<open>The loop \<^verbatim>\<open>for carry in carries: self.__save_trips(carry)\<close>.\<close>

fun save_all_trips :: "carry list \<Rightarrow> database \<Rightarrow> error + database" where
  "save_all_trips [] db = Inr db"
| "save_all_trips (c # cs) db =
     (case save_trips c db of Inl e \<Rightarrow> Inl e | Inr db1 \<Rightarrow> save_all_trips cs db1)"

definition save_carries :: "carry list \<Rightarrow> database \<Rightarrow> error + database" where
  "save_carries cs db =
     (let db1 = db\<lparr>calls := calls db @ [SaveCarries cs]\<rparr>
      in if db_active db1 \<and> (cs = [] \<or> list_ex (\<lambda>c. unit_count c = None) cs)
         then Inl ProgrammingError
         else save_all_trips cs db1)"

definition save_job :: "int \<Rightarrow> carry list \<Rightarrow> database \<Rightarrow> database" where
  "save_job start cs db = db\<lparr>calls := calls db @ [SaveJob start cs]\<rparr>"

text \<open>
  Class \<^verbatim>\<open>Database\<close> defines no attribute \<^verbatim>\<open>has_cannot_place_alerts\<close> and none named
  \<^verbatim>\<open>has_Damaged_Item_alerts\<close>: looking either up on the handler raises
  \<^verbatim>\<open>AttributeError\<close> before anything is called.
\<close>

definition has_cannot_place_alerts :: "database \<Rightarrow> error + bool" where
  "has_cannot_place_alerts db = Inl AttributeError"

definition has_Damaged_Item_alerts :: "database \<Rightarrow> error + bool" where
  "has_Damaged_Item_alerts db = Inl AttributeError"

section \<open>The job monitor (job_monitor.py)\<close>

definition NOE_loc :: int where
  "NOE_loc = 79"

datatype log_line = LogPickup int coords | LogDrop int coords

text \<open>
  The members of \<^verbatim>\<open>JobMonitor\<close>. \<^verbatim>\<open>curr_loc_time\<close> is \<^verbatim>\<open>None\<close> until the first
  location sample (or scenario event) sets it; \<open>curr_loc_time_set\<close> says whether it has
  been set, and every method below runs after that. \<open>mlog\<close> keeps the two log lines
  \<^verbatim>\<open>- PICKUP @\<close> and \<^verbatim>\<open>- DROP @\<close> of the run loop.
\<close>

record monitor =
  config :: settings
  db_connection :: database
  curr_loc_id :: int
  curr_loc_type :: string
  curr_loc_time :: int
  curr_loc_time_set :: bool
  curr_loc_coords :: coords
  prev_loc_time :: "int option"
  pickup_check :: bool
  correct_origins :: "int list"
  correct_dests :: "int list"
  pickup_history :: "int list"
  drop_history :: "int list"
  latest_pickup_item_ids :: "int list"
  tasks :: "task list"
  task_completion_times :: "int list"
  speed_accumulator :: "real list"
  carries :: "carry list"
  job_start_time :: int
  previous_clamp_status :: int
  mlog :: "log_line list"

text \<open>The local variables of \<^verbatim>\<open>run\<close> that live across location samples.\<close>

record run_locals =
  curr_pickup_coords :: "coords option"
  curr_pickup_time :: "int option"
  curr_drop_coords :: "coords option"
  curr_drop_time :: "int option"
  drop_check :: bool
  active_pickup_event :: bool

text \<open>The clamp edge detector of \<^verbatim>\<open>run\<close> (\<^verbatim>\<open>not a & b\<close> is \<^verbatim>\<open>not (a & b)\<close>).\<close>

definition drop_signal :: "int \<Rightarrow> int \<Rightarrow> bool" where
  "drop_signal previous current =
     (if \<not> (previous AND 0x40 \<noteq> 0) \<and> current AND 0x40 \<noteq> 0 then True else False)"

definition pickup_signal :: "int \<Rightarrow> int \<Rightarrow> bool" where
  "pickup_signal previous current =
     (if previous AND 0x80 \<noteq> 0 \<and> \<not> (current AND 0x80 \<noteq> 0) then True else False)"

definition clamp_check_enabled :: "monitor \<Rightarrow> bool" where
  "clamp_check_enabled m \<longleftrightarrow> curr_loc_type m \<noteq> ''aisle'' \<and> curr_loc_type m \<noteq> ''charging''"

text \<open>An update of the last element, \<^verbatim>\<open>xs[-1]\<close>, of a list that has one.\<close>

definition map_last :: "('a \<Rightarrow> 'a) \<Rightarrow> 'a list \<Rightarrow> 'a list" where
  "map_last f xs = (if xs = [] then [] else butlast xs @ [f (last xs)])"

definition update_carry_times :: "monitor \<Rightarrow> error + monitor" where
  "update_carry_times m =
     (case prev_loc_time m of
        None \<Rightarrow> Inr m
      | Some prev \<Rightarrow>
          if curr_loc_type m = ''stow''
          then (if carries m = [] then Inl IndexError
                else Inr (m\<lparr>carries := map_last (add_stow_time prev (curr_loc_time m)) (carries m)\<rparr>))
          else if curr_loc_type m = ''dock'' \<or> curr_loc_type m = ''dockOS''
          then (if carries m = [] then Inl IndexError
                else Inr (m\<lparr>carries := map_last (add_dock_time prev (curr_loc_time m)) (carries m)\<rparr>))
          else Inr m)"

definition should_check_item_at_drop :: "monitor \<Rightarrow> item \<Rightarrow> bool" where
  "should_check_item_at_drop m it =
     (if item_id it \<in> set (latest_pickup_item_ids m) then True
      else if item_origin it \<notin> set (correct_origins m) \<and>
              db_loc_has_active_dl_alerts (db_connection m) (item_origin it) then False
      else if item_origin it \<in> set (pickup_history m) then True else False)"

definition event_distance_check :: "monitor \<Rightarrow> real \<Rightarrow> coords option \<Rightarrow> error + bool" where
  "event_distance_check m threshold clamp_event_coords =
     (case clamp_event_coords of
        None \<Rightarrow> Inl TypeError
      | Some c \<Rightarrow> Inr (get_distance (curr_loc_coords m) c > threshold))"

definition check_pickup :: "coords option \<Rightarrow> int option \<Rightarrow> monitor \<Rightarrow> error + monitor" where
  "check_pickup pickup_coords pickup_time m =
     (case (if pickup_check m
            then (case event_distance_check m (pickup_check_distance_trigger (config m))
                         pickup_coords of
                    Inl e \<Rightarrow> Inl e
                  | Inr far \<Rightarrow>
                      if far
                      then (case (pickup_coords, pickup_time) of
                              (Some c, Some t) \<Rightarrow> get_pickup_data (db_connection m) c t
                            | _ \<Rightarrow> Inl TypeError)
                      else Inr [])
            else Inr []) of
        Inl e \<Rightarrow> Inl e
      | Inr pickup_data \<Rightarrow>
          Inr (m\<lparr>pickup_check := False,
                 latest_pickup_item_ids := latest_pickup_item_ids m @ pickup_data\<rparr>))"

definition has_active_tasks :: "monitor \<Rightarrow> bool" where
  "has_active_tasks m = list_ex (\<lambda>t. \<not> task_complete t) (tasks m)"

definition create_alert :: "string \<Rightarrow> int \<Rightarrow> item list option \<Rightarrow> monitor \<Rightarrow> monitor" where
  "create_alert kind loc wrong m =
     m\<lparr>db_connection := db_create_alert loc kind wrong (curr_loc_time m) (db_connection m)\<rparr>"

definition get_task_avg_speed :: "monitor \<Rightarrow> real" where
  "get_task_avg_speed m =
     (if speed_accumulator m = [] then 0
      else py_round2 (py_mean (speed_accumulator m)))"

definition finalize_task :: "monitor \<Rightarrow> task \<Rightarrow> item \<Rightarrow> task" where
  "finalize_task m t it =
     t\<lparr>task_item_id := Some (item_id it),
       task_start_time := Some (if task_completion_times m = [] then job_start_time m
                                else last (task_completion_times m)),
       task_finish_time := Some (curr_loc_time m),
       task_avg_speed := Some (get_task_avg_speed m),
       task_complete := True\<rparr>"

definition finalize_trip :: "int \<Rightarrow> int \<Rightarrow> bool \<Rightarrow> monitor \<Rightarrow> monitor" where
  "finalize_trip location event_time carry_finished m =
     (if carries m = [] \<or> trips (last (carries m)) = [] then m
      else if trip_origin (last (trips (last (carries m)))) = location \<and> \<not> carry_finished then m
      else
        (let m1 = m\<lparr>carries :=
                      map_last (\<lambda>c. c\<lparr>trips := map_last (Trip_finished location event_time)
                                                  (trips c)\<rparr>) (carries m)\<rparr>
         in if has_active_tasks m1 \<and> \<not> carry_finished
            then m1\<lparr>carries := map_last (append_trip event_time location) (carries m1)\<rparr>
            else m1))"

definition finalize_carry :: "int \<Rightarrow> int \<Rightarrow> int \<Rightarrow> monitor \<Rightarrow> monitor" where
  "finalize_carry location event_time correct_item_count m =
     (let m1 = (if carries m \<noteq> []
                then m\<lparr>carries := map_last (Carry_finished location correct_item_count event_time)
                                     (carries m)\<rparr>
                else m)
      in if has_active_tasks m1
         then m1\<lparr>carries := carries m1 @ [Carry (int (length (carries m1)) + 1) event_time location]\<rparr>
         else m1)"

definition check_remaining_tasks :: "int \<Rightarrow> monitor \<Rightarrow> monitor" where
  "check_remaining_tasks drop_location m =
     (if filter (\<lambda>t. \<not> task_complete t \<and> task_dest t = drop_location) (tasks m) \<noteq> []
      then create_alert ''remaining_tasks'' drop_location None m
      else m\<lparr>db_connection := cancel_remaining_tasks_alert drop_location (db_connection m)\<rparr>)"

definition check_job :: "monitor \<Rightarrow> error + monitor" where
  "check_job m =
     (if tasks m = [] \<or> has_active_tasks m \<or> db_has_active_alerts (db_connection m)
      then Inr m
      else
        (case save_carries (carries m) (db_connection m) of
           Inl e \<Rightarrow> Inl e
         | Inr db1 \<Rightarrow>
             Inr (m\<lparr>db_connection := save_job (job_start_time m) (carries m) db1,
                    tasks := [], correct_origins := [], correct_dests := []\<rparr>)))"

subsection \<open>Drop validation\<close>

text \<open>
  \<^verbatim>\<open>check_drop\<close> keeps three label lists beside the monitor. Tasks are objects of
  \<^verbatim>\<open>self.tasks\<close> mutated in place: a task is named by its position in that list.
\<close>

record drop_state =
  ds_monitor :: monitor
  correct_items :: "item list"
  returned_items :: "item list"
  wrong_items :: "item list"

fun first_index :: "('a \<Rightarrow> bool) \<Rightarrow> 'a list \<Rightarrow> nat option" where
  "first_index P [] = None"
| "first_index P (x # xs) = (if P x then Some 0 else map_option Suc (first_index P xs))"

text \<open>The loop \<^verbatim>\<open>for alert in alerts\<close> that looks for \<^verbatim>\<open>alert_to_cancel\<close>.\<close>

fun find_alert_to_cancel :: "int \<Rightarrow> dict_row list \<Rightarrow> error + dict_row option" where
  "find_alert_to_cancel drop_location [] = Inr None"
| "find_alert_to_cancel drop_location (alert # rest) =
     (case dict_get alert ''correct_loc_id'' of
        Inl e \<Rightarrow> Inl e
      | Inr v \<Rightarrow> if v = Some drop_location then Inr (Some alert)
                 else find_alert_to_cancel drop_location rest)"

text \<open>
  The end of \<^verbatim>\<open>check_alleged_wrong_item\<close>, once the prior task (at position \<open>p\<close>), the
  correction task (at position \<open>c\<close>, if any) and the alert to cancel are chosen:
  \<open>label_swapped\<close> is its statement \<^verbatim>\<open>if correction_task is not None: ... else: ...\<close>.
\<close>

definition label_swapped :: "item \<Rightarrow> nat option \<Rightarrow> drop_state \<Rightarrow> error + drop_state" where
  "label_swapped it c ds =
     (case c of
        Some k \<Rightarrow>
          (let m = ds_monitor ds;
               correction = (tasks m ! k)\<lparr>task_item_id := Some (item_id it),
                                         task_complete := True\<rparr>
           in case save_task correction (db_connection m) of
                Inl e \<Rightarrow> Inl e
              | Inr db1 \<Rightarrow>
                  Inr (ds\<lparr>ds_monitor := m\<lparr>tasks := (tasks m)[k := correction],
                                              db_connection := db1\<rparr>,
                          correct_items := correct_items ds @ [it]\<rparr>))
      | None \<Rightarrow> Inr (ds\<lparr>returned_items := returned_items ds @ [it]\<rparr>))"

definition swap_item :: "item \<Rightarrow> nat \<Rightarrow> nat option \<Rightarrow> dict_row \<Rightarrow> drop_state \<Rightarrow> error + drop_state" where
  "swap_item it p c alert_to_cancel ds =
     (case dict_get alert_to_cancel ''item_id'' of
        Inl e \<Rightarrow> Inl e
      | Inr new_id \<Rightarrow>
          (let m = ds_monitor ds;
               prior = (tasks m ! p)\<lparr>task_item_id := new_id\<rparr>
           in case save_task prior (db_connection m) of
                Inl e \<Rightarrow> Inl e
              | Inr db1 \<Rightarrow>
                  (case label_swapped it c
                          (ds\<lparr>ds_monitor := m\<lparr>tasks := (tasks m)[p := prior],
                                                db_connection := db1\<rparr>\<rparr>) of
                     Inl e \<Rightarrow> Inl e
                   | Inr ds1 \<Rightarrow>
                       (case dict_get alert_to_cancel ''id'' of
                          Inl e \<Rightarrow> Inl e
                        | Inr aid \<Rightarrow>
                            (case cancel_alert aid (db_connection (ds_monitor ds1)) of
                               Inl e \<Rightarrow> Inl e
                             | Inr db2 \<Rightarrow>
                                 Inr (ds1\<lparr>ds_monitor :=
                                            (ds_monitor ds1)\<lparr>db_connection := db2\<rparr>\<rparr>))))))"

text \<open>
  \<^verbatim>\<open>check_alleged_wrong_item\<close> from the line
  \<^verbatim>\<open>if task_completed_by_item is None or not alerts\<close> on, with the prior task (its
  position) and the rows of \<^verbatim>\<open>alerts\<close> as they were found.
\<close>

definition decide_swap ::
  "item \<Rightarrow> int \<Rightarrow> nat option \<Rightarrow> dict_row list \<Rightarrow> drop_state \<Rightarrow> error + drop_state" where
  "decide_swap it drop_location task_completed_by_item rows ds =
     (let m = ds_monitor ds in
      case task_completed_by_item of
        None \<Rightarrow> Inr (ds\<lparr>wrong_items := wrong_items ds @ [it]\<rparr>)
      | Some p \<Rightarrow>
          if rows = [] then Inr (ds\<lparr>wrong_items := wrong_items ds @ [it]\<rparr>)
          else if task_origin (tasks m ! p) \<noteq> drop_location
          then
            (let correction_task =
                   first_index (\<lambda>t. task_model t = item_model it \<and>
                                     task_dest t = drop_location \<and> \<not> task_complete t)
                     (tasks m)
             in case find_alert_to_cancel drop_location rows of
                  Inl e \<Rightarrow> Inl e
                | Inr alert_to_cancel \<Rightarrow>
                    (case (correction_task, alert_to_cancel) of
                       (Some k, Some a) \<Rightarrow> swap_item it p (Some k) a ds
                     | _ \<Rightarrow> Inr (ds\<lparr>wrong_items := wrong_items ds @ [it]\<rparr>)))
          else swap_item it p None (hd rows) ds)"

definition check_alleged_wrong_item :: "item \<Rightarrow> int \<Rightarrow> drop_state \<Rightarrow> error + drop_state" where
  "check_alleged_wrong_item it drop_location ds =
     (if serial_lock it \<noteq> 0 then Inr (ds\<lparr>wrong_items := wrong_items ds @ [it]\<rparr>)
      else
        (let m = ds_monitor ds;
             task_completed_by_item =
               first_index (\<lambda>t. task_model t = item_model it \<and> task_complete t \<and>
                                 task_item_id t = Some (item_id it)) (tasks m);
             alerts = get_model_alerts (db_connection m) it
         in decide_swap it drop_location task_completed_by_item alerts ds))"

text \<open>
  The loop of \<^verbatim>\<open>check_drop\<close> over \<^verbatim>\<open>tasks_to_check\<close> (the tasks not complete), for one
  item: the position in \<^verbatim>\<open>self.tasks\<close> of the task at which the loop breaks.
\<close>

fun scan_tasks :: "item \<Rightarrow> int \<Rightarrow> task list \<Rightarrow> nat \<Rightarrow> nat option" where
  "scan_tasks it drop_location [] k = None"
| "scan_tasks it drop_location (t # ts) k =
     (if task_complete t then scan_tasks it drop_location ts (Suc k)
      else if item_model it = task_model t \<and> serial_lock it = 0 \<and>
              item_origin it = task_origin t \<and> drop_location = task_dest t
      then Some k
      else if item_model it = task_model t \<and> serial_lock it = 0 \<and>
              item_origin it = task_origin t \<and> drop_location = NOE_loc
      then Some k
      else scan_tasks it drop_location ts (Suc k))"

text \<open>The body of \<^verbatim>\<open>for item in sensed_items\<close>.\<close>

definition classify_item :: "int \<Rightarrow> item \<Rightarrow> drop_state \<Rightarrow> error + drop_state" where
  "classify_item drop_location it ds =
     (let m = ds_monitor ds in
      if \<not> should_check_item_at_drop m it then Inr ds
      else
        (case scan_tasks it drop_location (tasks m) 0 of
           Some k \<Rightarrow>
             (let db1 = save_item_loc it drop_location (db_connection m);
                  t = finalize_task m (tasks m ! k) it
              in case save_task t db1 of
                   Inl e \<Rightarrow> Inl e
                 | Inr db2 \<Rightarrow>
                     Inr (ds\<lparr>ds_monitor := m\<lparr>tasks := (tasks m)[k := t],
                                                 db_connection := db2\<rparr>,
                             correct_items := correct_items ds @ [it]\<rparr>))
         | None \<Rightarrow>
             if item_origin it \<noteq> drop_location
             then check_alleged_wrong_item it drop_location ds
             else Inr (ds\<lparr>returned_items := returned_items ds @ [it]\<rparr>)))"

fun classify_items :: "int \<Rightarrow> item list \<Rightarrow> drop_state \<Rightarrow> error + drop_state" where
  "classify_items drop_location [] ds = Inr ds"
| "classify_items drop_location (it # rest) ds =
     (case classify_item drop_location it ds of
        Inl e \<Rightarrow> Inl e
      | Inr ds1 \<Rightarrow> classify_items drop_location rest ds1)"

text \<open>
  The loop over \<^verbatim>\<open>tasks_to_check\<close> for one wrong item, and the loop over the wrong
  items, which returns them with \<^verbatim>\<open>correct_loc_id\<close> set, and \<^verbatim>\<open>checked_tasks\<close>.
\<close>

fun reserve_task :: "item \<Rightarrow> task list \<Rightarrow> int list \<Rightarrow> task option" where
  "reserve_task w [] checked_tasks = None"
| "reserve_task w (t # ts) checked_tasks =
     (if task_id t \<in> set checked_tasks then reserve_task w ts checked_tasks
      else if item_model w = task_model t \<and> serial_lock w = 0 \<and> item_origin w = task_origin t
      then Some t
      else reserve_task w ts checked_tasks)"

fun set_correct_locs :: "task list \<Rightarrow> int list \<Rightarrow> item list \<Rightarrow> item list \<times> int list" where
  "set_correct_locs incomplete_tasks checked_tasks [] = ([], checked_tasks)"
| "set_correct_locs incomplete_tasks checked_tasks (w # ws) =
     (case reserve_task w incomplete_tasks checked_tasks of
        Some t \<Rightarrow>
          (let r = set_correct_locs incomplete_tasks (checked_tasks @ [task_id t]) ws
           in (w\<lparr>correct_loc_id := Some (task_dest t)\<rparr> # fst r, snd r))
      | None \<Rightarrow>
          (let r = set_correct_locs incomplete_tasks checked_tasks ws
           in (w\<lparr>correct_loc_id := Some (item_origin w)\<rparr> # fst r, snd r)))"

text \<open>
  \<^verbatim>\<open>check_drop\<close> from the line \<^verbatim>\<open>incomplete_tasks = ...\<close> to the call of
  \<^verbatim>\<open>check_job\<close>, and from that call to its end.
\<close>

definition check_drop_effects :: "int \<Rightarrow> drop_state \<Rightarrow> monitor" where
  "check_drop_effects drop_location ds =
     (let m = ds_monitor ds;
          correct = correct_items ds;
          returned = returned_items ds;
          incomplete_tasks = filter (\<lambda>t. \<not> task_complete t) (tasks m);
          wrong = fst (set_correct_locs incomplete_tasks [] (wrong_items ds));
          m1 = (if correct \<noteq> [] \<and> drop_location \<in> set (correct_dests m)
                then m\<lparr>speed_accumulator := [],
                       task_completion_times := task_completion_times m @ [curr_loc_time m]\<rparr>
                else m);
          m2 = (if returned \<noteq> []
                then m1\<lparr>db_connection := cancel_item_alerts returned (db_connection m1)\<rparr>
                else m1);
          m3 = (if wrong \<noteq> []
                then create_alert (if drop_location \<in> set (correct_dests m2)
                                   then ''drop_items'' else ''drop_location'')
                       drop_location (Some wrong) m2
                else m2);
          m4 = (if (correct \<noteq> [] \<or> wrong \<noteq> [] \<or> returned \<noteq> []) \<and>
                   drop_location \<in> set (correct_dests m3)
                then finalize_trip drop_location (curr_loc_time m3) (correct \<noteq> []) m3
                else m3);
          m5 = (if correct \<noteq> []
                then check_remaining_tasks drop_location
                       (finalize_carry drop_location (curr_loc_time m4) (int (length correct))
                          (m4\<lparr>db_connection := cancel_item_alerts correct (db_connection m4)\<rparr>))
                else m4)
      in m5)"

definition check_drop_post :: "int \<Rightarrow> drop_state \<Rightarrow> error + monitor" where
  "check_drop_post drop_location ds =
     (case check_job (check_drop_effects drop_location ds) of
        Inl e \<Rightarrow> Inl e
      | Inr m6 \<Rightarrow> Inr (m6\<lparr>latest_pickup_item_ids := []\<rparr>))"

definition check_drop :: "int \<Rightarrow> item list \<Rightarrow> monitor \<Rightarrow> error + monitor" where
  "check_drop drop_location sensed_items m =
     (case classify_items drop_location sensed_items
             \<lparr>ds_monitor = m, correct_items = [], returned_items = [], wrong_items = []\<rparr> of
        Inl e \<Rightarrow> Inl e
      | Inr ds \<Rightarrow> check_drop_post drop_location ds)"

subsection \<open>The run loop\<close>

definition set_loc_data :: "loc_row \<Rightarrow> monitor \<Rightarrow> monitor" where
  "set_loc_data loc m =
     m\<lparr>prev_loc_time := (if curr_loc_time_set m then Some (curr_loc_time m) else None),
       curr_loc_type := loc_type loc,
       curr_loc_id := geo_feature_id loc,
       curr_loc_time := loc_timestamp loc,
       curr_loc_time_set := True,
       curr_loc_coords := (loc_x loc, loc_y loc),
       speed_accumulator := speed_accumulator m @ [loc_speed loc]\<rparr>"

text \<open>The body of \<^verbatim>\<open>for loc in loc_data\<close> up to the clamp status.\<close>

definition begin_sample :: "loc_row \<Rightarrow> monitor \<Rightarrow> error + monitor" where
  "begin_sample loc m =
     (let m1 = set_loc_data loc m;
          m2 = (if carries m1 = []
                then m1\<lparr>carries := carries m1 @ [Carry 1 (curr_loc_time m1) (curr_loc_id m1)]\<rparr>
                else m1)
      in case update_carry_times m2 of
           Inl e \<Rightarrow> Inl e
         | Inr m3 \<Rightarrow>
             if carries m3 = [] \<or> trips (last (carries m3)) = [] then Inl IndexError
             else Inr (m3\<lparr>carries :=
                            map_last (\<lambda>c. c\<lparr>trips :=
                                              map_last (\<lambda>t. append_coords (curr_loc_coords m3)
                                                               (append_speed (loc_speed loc) t))
                                                (trips c)\<rparr>) (carries m3)\<rparr>))"

text \<open>The branch \<^verbatim>\<open>if pickup_signal\<close>.\<close>

definition on_pickup_signal :: "monitor \<times> run_locals \<Rightarrow> monitor \<times> run_locals" where
  "on_pickup_signal s =
     (let m0 = fst s; l = snd s;
          m = m0\<lparr>mlog := mlog m0 @ [LogPickup (curr_loc_id m0) (curr_loc_coords m0)]\<rparr>
      in if clamp_check_enabled m
         then
           (let m1 = m\<lparr>pickup_history := pickup_history m @ [curr_loc_id m]\<rparr>;
                clamp_warning_name = (if curr_loc_id m1 \<in> set (correct_origins m1)
                                      then ''clamps_closed_event'' else ''clamps_closed_warning'');
                m2 = (if has_active_tasks m1 \<and> curr_loc_id m1 \<notin> set (correct_dests m1)
                      then create_alert clamp_warning_name (curr_loc_id m1) None m1 else m1);
                m3 = m2\<lparr>pickup_check := True\<rparr>;
                l1 = l\<lparr>curr_pickup_coords := Some (curr_loc_coords m3),
                       curr_pickup_time := Some (curr_loc_time m3)\<rparr>
            in if curr_loc_id m3 \<in> set (correct_origins m3)
               then (finalize_trip (curr_loc_id m3) (curr_loc_time m3) False
                       (m3\<lparr>db_connection :=
                             cancel_alerts ''clamps_closed_warning'' (db_connection m3)\<rparr>),
                     l1\<lparr>active_pickup_event := True\<rparr>)
               else (m3, l1))
         else (m, l))"

text \<open>
  The branch \<^verbatim>\<open>if drop_signal\<close>. In \<^verbatim>\<open>a() or b()\<close> the second call is made only
  when the first returns false.
\<close>

definition on_drop_signal :: "monitor \<times> run_locals \<Rightarrow> error + monitor \<times> run_locals" where
  "on_drop_signal s =
     (let m0 = fst s; l = snd s;
          m = m0\<lparr>mlog := mlog m0 @ [LogDrop (curr_loc_id m0) (curr_loc_coords m0)]\<rparr>
      in if clamp_check_enabled m \<and> \<not> drop_check l
         then
           (case check_pickup (curr_pickup_coords l) (curr_pickup_time l) m of
              Inl e \<Rightarrow> Inl e
            | Inr m1 \<Rightarrow>
                (let m2 = m1\<lparr>drop_history := drop_history m1 @ [curr_loc_id m1]\<rparr>;
                     l1 = l\<lparr>drop_check := True,
                            curr_drop_coords := Some (curr_loc_coords m2),
                            curr_drop_time := Some (curr_loc_time m2)\<rparr>
                 in case (case has_cannot_place_alerts (db_connection m2) of
                            Inl e \<Rightarrow> Inl e
                          | Inr b \<Rightarrow> if b then Inr True
                                     else has_Damaged_Item_alerts (db_connection m2)) of
                      Inl e \<Rightarrow> Inl e
                    | Inr noe \<Rightarrow>
                        (let m3 = (if noe then m2\<lparr>correct_dests := correct_dests m2 @ [NOE_loc]\<rparr>
                                   else m2)
                         in if curr_loc_id m3 \<in> set (correct_dests m3)
                            then Inr (m3\<lparr>db_connection :=
                                           cancel_alerts ''clamps_closed_warning''
                                             (db_connection m3)\<rparr>, l1)
                            else Inr (m3, l1))))
         else Inr (m, l))"

text \<open>The two gates at the end of the loop body.\<close>

definition drop_gate :: "monitor \<times> run_locals \<Rightarrow> error + monitor \<times> run_locals" where
  "drop_gate s =
     (let m = fst s; l = snd s in
      if \<not> drop_check l then Inr (m, l)
      else
        (case event_distance_check m (drop_check_distance (config m)) (curr_drop_coords l) of
           Inl e \<Rightarrow> Inl e
         | Inr far \<Rightarrow>
             if \<not> far then Inr (m, l)
             else
               (case curr_drop_time l of
                  None \<Rightarrow> Inl TypeError
                | Some t \<Rightarrow>
                    (case get_drop_data (db_connection m) t (curr_loc_time m) of
                       Inl e \<Rightarrow> Inl e
                     | Inr sensed_items \<Rightarrow>
                         if drop_history m = [] then Inl IndexError
                         else (case check_drop (last (drop_history m)) sensed_items m of
                                 Inl e \<Rightarrow> Inl e
                               | Inr m1 \<Rightarrow> Inr (m1, l\<lparr>drop_check := False\<rparr>))))))"

definition pickup_gate :: "monitor \<times> run_locals \<Rightarrow> error + monitor \<times> run_locals" where
  "pickup_gate s =
     (let m = fst s; l = snd s in
      if \<not> active_pickup_event l then Inr (m, l)
      else
        (case event_distance_check m (pickup_check_distance_trigger (config m))
                (curr_pickup_coords l) of
           Inl e \<Rightarrow> Inl e
         | Inr far \<Rightarrow>
             if far
             then Inr (m\<lparr>db_connection := cancel_alerts ''clamps_closed_event'' (db_connection m)\<rparr>,
                       l\<lparr>active_pickup_event := False\<rparr>)
             else Inr (m, l)))"

text \<open>The two signal branches, in the order of the loop body.\<close>

definition handle_signals ::
  "bool \<Rightarrow> bool \<Rightarrow> monitor \<times> run_locals \<Rightarrow> error + monitor \<times> run_locals" where
  "handle_signals pickup_fired drop_fired s =
     (let s1 = (if pickup_fired then on_pickup_signal s else s)
      in if drop_fired then on_drop_signal s1 else Inr s1)"

text \<open>The body of \<^verbatim>\<open>for loc in loc_data\<close>.\<close>

definition run_sample :: "loc_row \<Rightarrow> monitor \<times> run_locals \<Rightarrow> error + monitor \<times> run_locals" where
  "run_sample loc s =
     (case begin_sample loc (fst s) of
        Inl e \<Rightarrow> Inl e
      | Inr m \<Rightarrow>
          (let current_clamp_status = clamp_status loc;
               drop_fired = drop_signal (previous_clamp_status m) current_clamp_status;
               pickup_fired = pickup_signal (previous_clamp_status m) current_clamp_status;
               m1 = m\<lparr>previous_clamp_status := current_clamp_status\<rparr>
           in case handle_signals pickup_fired drop_fired (m1, snd s) of
                Inl e \<Rightarrow> Inl e
              | Inr s1 \<Rightarrow>
                  (case drop_gate s1 of
                     Inl e \<Rightarrow> Inl e
                   | Inr s2 \<Rightarrow> pickup_gate s2)))"

subsection \<open>The two drivers of the monitor\<close>

text \<open>
  What runs on a constructed monitor: a location sample of the run loop, the check
  \<^verbatim>\<open>is_job_active\<close> at the top of the loop, and the two events of the scenario player
  (scenario\_player.py), each with the time it sets as \<^verbatim>\<open>curr_loc_time\<close>. Between
  two of them other processes write the store: \<open>StoreWrite\<close> replaces the tables and
  leaves the handler's own fields as they are.
\<close>

datatype monitor_op =
    LocSample loc_row
  | JobActiveCheck
  | ScenarioPickup int int "int list"
  | ScenarioDrop int int "int list"
  | StoreWrite database

definition is_job_active :: "monitor \<Rightarrow> error + monitor" where
  "is_job_active m = (if \<not> db_is_job_active (db_connection m) then Inl SystemExit else Inr m)"

definition simulate_pickup :: "int \<Rightarrow> int list \<Rightarrow> monitor \<Rightarrow> monitor" where
  "simulate_pickup location item_ids m =
     (let m1 = m\<lparr>pickup_history := pickup_history m @ [location]\<rparr>;
          m2 = (if location \<in> set (correct_origins m1)
                then finalize_trip location (curr_loc_time m1) False m1 else m1)
      in m2\<lparr>latest_pickup_item_ids := latest_pickup_item_ids m2 @ item_ids\<rparr>)"

definition simulate_drop :: "int \<Rightarrow> int list \<Rightarrow> monitor \<Rightarrow> error + monitor" where
  "simulate_drop location item_ids m =
     (let m1 = m\<lparr>drop_history := drop_history m @ [location]\<rparr>;
          sensed_items = get_item_data (db_connection m1) item_ids
      in check_drop (last (drop_history m1)) sensed_items m1)"

definition store_write :: "database \<Rightarrow> database \<Rightarrow> database" where
  "store_write new db =
     db\<lparr>alerts := alerts new, next_alert_id := next_alert_id new, items := items new,
        detected_items := detected_items new, loc_data := loc_data new,
        latest_rfid_timestamp := latest_rfid_timestamp new, job_active := job_active new\<rparr>"

definition apply_op :: "monitor_op \<Rightarrow> monitor \<times> run_locals \<Rightarrow> error + monitor \<times> run_locals" where
  "apply_op op s =
     (case op of
        LocSample loc \<Rightarrow> run_sample loc s
      | JobActiveCheck \<Rightarrow>
          (case is_job_active (fst s) of Inl e \<Rightarrow> Inl e | Inr m \<Rightarrow> Inr (m, snd s))
      | ScenarioPickup time location item_ids \<Rightarrow>
          Inr (simulate_pickup location item_ids
                 ((fst s)\<lparr>curr_loc_time := time, curr_loc_time_set := True\<rparr>), snd s)
      | ScenarioDrop time location item_ids \<Rightarrow>
          (case simulate_drop location item_ids
                  ((fst s)\<lparr>curr_loc_time := time, curr_loc_time_set := True\<rparr>) of
             Inl e \<Rightarrow> Inl e
           | Inr m \<Rightarrow> Inr (m, snd s))
      | StoreWrite new \<Rightarrow>
          Inr ((fst s)\<lparr>db_connection := store_write new (db_connection (fst s))\<rparr>, snd s))"

fun run_ops :: "monitor_op list \<Rightarrow> monitor \<times> run_locals \<Rightarrow> error + monitor \<times> run_locals" where
  "run_ops [] s = Inr s"
| "run_ops (op # ops) s =
     (case apply_op op s of Inl e \<Rightarrow> Inl e | Inr s1 \<Rightarrow> run_ops ops s1)"

section \<open>Example states\<close>

text \<open>
  A job with two tasks for model A, from location 1 to locations 2 and 5, after a pickup
  at location 1 that sensed the items 7 and 8 (both of model A, stored at location 1).
\<close>

definition demo_settings :: settings where
  "demo_settings =
     \<lparr>pickup_check_distance_trigger = 2, pickup_check_distance_window = 5,
      pickup_post_seconds = 1, drop_check_distance = 2, drop_pre_seconds = 1,
      rfid_wait_timeout = 3, activate_queries = True\<rparr>"

definition demo_store :: database where
  "demo_store =
     \<lparr>db_config = demo_settings, db_job_id = 1, db_truck_id = 1, db_active = True,
      alerts = [], next_alert_id = 1,
      items = [\<lparr>row_id = 7, row_item_tag = ''tag7'', row_model = ''A'', row_curr_loc_id = 1,
                 row_serial_lock = 0\<rparr>,
               \<lparr>row_id = 8, row_item_tag = ''tag8'', row_model = ''A'', row_curr_loc_id = 1,
                 row_serial_lock = 0\<rparr>],
      detected_items = [], loc_data = [], latest_rfid_timestamp = None, job_active = Some 1,
      calls = []\<rparr>"

definition demo_monitor :: monitor where
  "demo_monitor =
     \<lparr>config = demo_settings, db_connection = demo_store, curr_loc_id = 1,
      curr_loc_type = ''stow'', curr_loc_time = 10000000, curr_loc_time_set = True,
      curr_loc_coords = (0, 0), prev_loc_time = None, pickup_check = False,
      correct_origins = [1, 1], correct_dests = [2, 5], pickup_history = [1],
      drop_history = [], latest_pickup_item_ids = [7, 8],
      tasks = [Task 1 ''A'' 1 2, Task 2 ''A'' 1 5], task_completion_times = [],
      speed_accumulator = [], carries = [Carry 1 0 1], job_start_time = 0,
      previous_clamp_status = 0, mlog = []\<rparr>"

definition demo_locals :: run_locals where
  "demo_locals =
     \<lparr>curr_pickup_coords = None, curr_pickup_time = None, curr_drop_coords = None,
      curr_drop_time = None, drop_check = False, active_pickup_event = False\<rparr>"

definition demo_item :: "int \<Rightarrow> int \<Rightarrow> item" where
  "demo_item n loc =
     \<lparr>item_id = n, item_model = ''A'', item_origin = loc, serial_lock = 0,
      correct_loc_id = None\<rparr>"

definition fresh_labels :: "monitor \<Rightarrow> drop_state" where
  "fresh_labels m = \<lparr>ds_monitor = m, correct_items = [], returned_items = [], wrong_items = []\<rparr>"

text \<open>
  Two location samples: in an aisle, with the clamp status 0x40 (after 0x80 both signals
  fire); and at the stow location 2, with the same status (after 0 the drop signal fires).
\<close>

definition demo_aisle_sample :: loc_row where
  "demo_aisle_sample =
     \<lparr>loc_truck_id = 1, geo_feature_id = 3, loc_x = 4, loc_y = 0, loc_timestamp = 11000000,
      loc_speed = 1, clamp_status = 0x40, loc_type = ''aisle''\<rparr>"

definition demo_drop_sample :: loc_row where
  "demo_drop_sample =
     \<lparr>loc_truck_id = 1, geo_feature_id = 2, loc_x = 9, loc_y = 0, loc_timestamp = 12000000,
      loc_speed = 1, clamp_status = 0x40, loc_type = ''stow''\<rparr>"

text \<open>
  A job with the single task T1 (model A, from location 1 to location 5), as the scenario
  player starts it at location 1, and the same job after the pickup of item 7 at
  location 1.
\<close>

definition single_task_monitor :: monitor where
  "single_task_monitor =
     demo_monitor\<lparr>tasks := [Task 1 ''A'' 1 5], correct_origins := [1], correct_dests := [5],
                   pickup_history := [], latest_pickup_item_ids := []\<rparr>"

definition picked_monitor :: monitor where
  "picked_monitor = single_task_monitor\<lparr>pickup_history := [1], latest_pickup_item_ids := [7]\<rparr>"

text \<open>
  Item 7 is then dropped at a location \<open>d\<close> at second 20. \<open>dropped_labels d\<close> is the
  state of \<^verbatim>\<open>check_drop\<close> after its first loop, in which item 7 has closed T1 (lemma
  \<open>drop_closes_single_task\<close>, for the locations 5 and 79), and \<open>completion_monitor d\<close>
  the monitor on which \<^verbatim>\<open>check_drop\<close> then calls \<^verbatim>\<open>check_job\<close>.
\<close>

definition dropping_monitor :: "int \<Rightarrow> monitor" where
  "dropping_monitor d = picked_monitor\<lparr>curr_loc_time := 20000000, drop_history := [d]\<rparr>"

definition dropped_labels :: "int \<Rightarrow> drop_state" where
  "dropped_labels d =
     \<lparr>ds_monitor =
        (dropping_monitor d)
          \<lparr>tasks := [finalize_task (dropping_monitor d) (Task 1 ''A'' 1 5) (demo_item 7 1)],
           db_connection :=
             (save_item_loc (demo_item 7 1) d demo_store)
               \<lparr>calls := [SaveItemLoc 7 d,
                           SaveTask (finalize_task (dropping_monitor d) (Task 1 ''A'' 1 5)
                                       (demo_item 7 1))]\<rparr>\<rparr>,
      correct_items = [demo_item 7 1], returned_items = [], wrong_items = []\<rparr>"

definition completion_monitor :: "int \<Rightarrow> monitor" where
  "completion_monitor d = check_drop_effects d (dropped_labels d)"

text \<open>
  A job whose second task ends at the NOE location 79: both tasks want model A from
  location 1.
\<close>

definition noe_monitor :: monitor where
  "noe_monitor =
     demo_monitor\<lparr>tasks := [Task 1 ''A'' 1 5, Task 2 ''A'' 1 79], correct_dests := [5, 79]\<rparr>"


text \<open>
  Location samples around a pickup at the coordinates (0, 0) at second 100: this truck at
  the seconds 30, 50, 70, 90 and 95, at the distances 50, 20, 10, 3 and 1, and another
  truck at second 80.
\<close>

definition window_sample :: "int \<Rightarrow> int \<Rightarrow> real \<Rightarrow> loc_row" where
  "window_sample truck seconds x =
     \<lparr>loc_truck_id = truck, geo_feature_id = 1, loc_x = x, loc_y = 0,
      loc_timestamp = seconds * 1000000, loc_speed = 1, clamp_status = 0, loc_type = ''stow''\<rparr>"

definition window_store :: database where
  "window_store =
     demo_store\<lparr>loc_data := [window_sample 1 30 50, window_sample 1 50 20, window_sample 2 80 40,
                               window_sample 1 70 10, window_sample 1 90 3, window_sample 1 95 1]\<rparr>"

text \<open>
  The swap of the docstring of \<^verbatim>\<open>check_alleged_wrong_item\<close>: items 7 and 8 were dropped
  at location 2; item 7 closed the first task and is now stored at location 2, item 8
  raised an alert at location 2 with the correct location 5. Then item 7 was picked up at
  location 2, and is now dropped at location 5.
\<close>

definition swap_store :: database where
  "swap_store =
     demo_store
       \<lparr>alerts := [\<lparr>alert_id = 1, alert_loc_id = 2, alert_item_id = Some 8, alert_job_id = 1,
                    alert_timestamp = 20000000, alert_type = ''drop_items'',
                    alert_active = True, alert_correct_loc_id = Some 5\<rparr>],
        next_alert_id := 2,
        items := [\<lparr>row_id = 7, row_item_tag = ''tag7'', row_model = ''A'', row_curr_loc_id = 2,
                   row_serial_lock = 0\<rparr>,
                 \<lparr>row_id = 8, row_item_tag = ''tag8'', row_model = ''A'', row_curr_loc_id = 1,
                   row_serial_lock = 0\<rparr>]\<rparr>"

definition swap_monitor :: monitor where
  "swap_monitor =
     demo_monitor
       \<lparr>db_connection := swap_store,
        tasks := [(Task 1 ''A'' 1 2)\<lparr>task_complete := True, task_item_id := Some 7\<rparr>,
                  Task 2 ''A'' 1 5],
        pickup_history := [1, 2], drop_history := [2], latest_pickup_item_ids := [7],
        curr_loc_time := 40000000\<rparr>"

section \<open>Observations used in the statements\<close>


section \<open>Verification: the data model\<close>

lemma Carry_open: "carry_open (Carry n t l)"
  by (simp add: carry_open_def Carry_def append_trip_def)

lemma append_trip_open: "carry_open c \<Longrightarrow> carry_open (append_trip t l c)"
  by (simp add: carry_open_def append_trip_def)

lemma add_stow_time_open: "carry_open c \<Longrightarrow> carry_open (add_stow_time p q c)"
  by (simp add: carry_open_def add_stow_time_def)

lemma add_dock_time_open: "carry_open c \<Longrightarrow> carry_open (add_dock_time p q c)"
  by (simp add: carry_open_def add_dock_time_def)

lemma trips_mutated_open:
  "carry_open c \<Longrightarrow> length ts = length (trips c) \<Longrightarrow> carry_open (c\<lparr>trips := ts\<rparr>)"
  by (auto simp: carry_open_def)


text \<open>
  \<open>round_half_even\<close> returns an integer nearest to its argument, and the even one of
  the two when the argument lies halfway.
\<close>

lemma round_half_even_cases:
  obtains "x - of_int \<lfloor>x\<rfloor> < 1 / 2" "round_half_even x = \<lfloor>x\<rfloor>"
  | "1 / 2 < x - of_int \<lfloor>x\<rfloor>" "round_half_even x = \<lfloor>x\<rfloor> + 1"
  | "x - of_int \<lfloor>x\<rfloor> = 1 / 2" "even (round_half_even x)"
      "round_half_even x = \<lfloor>x\<rfloor> \<or> round_half_even x = \<lfloor>x\<rfloor> + 1"
proof -
  consider "x - of_int \<lfloor>x\<rfloor> < 1 / 2" | "1 / 2 < x - of_int \<lfloor>x\<rfloor>"
    | "x - of_int \<lfloor>x\<rfloor> = 1 / 2" by linarith
  then show ?thesis
  proof cases
    case 1
    then have "round_half_even x = \<lfloor>x\<rfloor>" by (simp add: round_half_even_def Let_def)
    with 1 that(1) show ?thesis by blast
  next
    case 2
    then have "round_half_even x = \<lfloor>x\<rfloor> + 1" by (simp add: round_half_even_def Let_def)
    with 2 that(2) show ?thesis by blast
  next
    case 3
    then have "even (round_half_even x)"
      "round_half_even x = \<lfloor>x\<rfloor> \<or> round_half_even x = \<lfloor>x\<rfloor> + 1"
      by (simp_all add: round_half_even_def Let_def)
    with 3 that(3) show ?thesis by blast
  qed
qed

lemma round_half_even_near: "\<bar>of_int (round_half_even x) - x\<bar> \<le> 1 / 2"
proof -
  have f: "of_int \<lfloor>x\<rfloor> \<le> x" "x < of_int \<lfloor>x\<rfloor> + 1" by linarith+
  show ?thesis
  proof (cases x rule: round_half_even_cases)
    case 1
    with f show ?thesis by simp
  next
    case 2
    with f show ?thesis by simp
  next
    case 3
    then show ?thesis by auto
  qed
qed


text \<open>
  \<open>binade x\<close> is the exponent of the power of two at or below \<open>\<bar>x\<bar>\<close>; \<open>to_double x\<close>,
  a multiple of the unit in the last place of that binade, lies at most half a unit away
  from \<open>x\<close>.
\<close>

lemma binade_bounds:
  assumes "x \<noteq> 0"
  shows "2 powi binade x \<le> \<bar>x\<bar> \<and> \<bar>x\<bar> < 2 powi (binade x + 1)"
proof (cases "1 \<le> \<bar>x\<bar>")
  case True
  define n where "n = \<lfloor>\<bar>x\<bar>\<rfloor>"
  have n: "0 < n" "of_int n \<le> \<bar>x\<bar>" "\<bar>x\<bar> < of_int n + 1"
    using True unfolding n_def by linarith+
  have b: "1 \<le> bitlen n" using n(1) by (simp add: bitlen_alt_def)
  from bitlen_bounds [OF n(1)]
  have lo: "(2::int) ^ nat (bitlen n - 1) \<le> n" and hi: "n + 1 \<le> 2 ^ nat (bitlen n)" by simp_all
  have "real_of_int (2 ^ nat (bitlen n - 1)) \<le> of_int n"
    using lo by (simp only: of_int_le_iff)
  then have "(2::real) ^ nat (bitlen n - 1) \<le> of_int n" by simp
  moreover have "real_of_int (n + 1) \<le> of_int (2 ^ nat (bitlen n))"
    using hi by (simp only: of_int_le_iff)
  then have "of_int n + 1 \<le> (2::real) ^ nat (bitlen n)" by simp
  ultimately have A: "(2::real) ^ nat (bitlen n - 1) \<le> \<bar>x\<bar>" and B: "\<bar>x\<bar> < 2 ^ nat (bitlen n)"
    using n(2,3) by linarith+
  have e: "binade x = bitlen n - 1"
    using True by (simp add: binade_def n_def)
  have p1: "(2::real) powi (bitlen n - 1) = 2 ^ nat (bitlen n - 1)"
    using b by (simp add: power_int_def)
  have p2: "(2::real) powi (bitlen n - 1 + 1) = 2 ^ nat (bitlen n)"
    using b by (simp add: power_int_def)
  show ?thesis unfolding e p1 p2 using A B by simp
next
  case False
  define c where "c = \<lceil>1 / \<bar>x\<bar>\<rceil>"
  have x: "0 < \<bar>x\<bar>" "\<bar>x\<bar> < 1" using assms False by simp_all
  then have y: "1 < 1 / \<bar>x\<bar>" by simp
  have c: "1 / \<bar>x\<bar> \<le> of_int c" "of_int c - 1 < 1 / \<bar>x\<bar>" "0 < c - 1"
    using y unfolding c_def by linarith+
  from bitlen_bounds [OF c(3)]
  have lo: "(2::int) ^ nat (bitlen (c - 1) - 1) \<le> c - 1" and hi: "c \<le> 2 ^ nat (bitlen (c - 1))"
    by simp_all
  have b: "1 \<le> bitlen (c - 1)" using c(3) by (simp add: bitlen_alt_def)
  have "real_of_int (2 ^ nat (bitlen (c - 1) - 1)) \<le> of_int (c - 1)"
    using lo by (simp only: of_int_le_iff)
  then have lo': "(2::real) ^ nat (bitlen (c - 1) - 1) \<le> of_int c - 1" by simp
  have "real_of_int c \<le> of_int (2 ^ nat (bitlen (c - 1)))"
    using hi by (simp only: of_int_le_iff)
  then have hi': "of_int c \<le> (2::real) ^ nat (bitlen (c - 1))" by simp
  have 1: "1 / \<bar>x\<bar> \<le> 2 ^ nat (bitlen (c - 1))" using c(1) hi' by linarith
  have 2: "(2::real) ^ nat (bitlen (c - 1) - 1) < 1 / \<bar>x\<bar>" using c(2) lo' by linarith
  have A: "1 / 2 ^ nat (bitlen (c - 1)) \<le> \<bar>x\<bar>"
    using 1 x(1) by (simp add: field_simps)
  have B: "\<bar>x\<bar> < 1 / 2 ^ nat (bitlen (c - 1) - 1)"
    using 2 x(1) by (simp add: field_simps)
  have e: "binade x = - bitlen (c - 1)"
    using False by (simp add: binade_def c_def)
  have p1: "(2::real) powi (- bitlen (c - 1)) = 1 / 2 ^ nat (bitlen (c - 1))"
    using b by (simp add: power_int_def field_simps)
  have p2: "(2::real) powi (- bitlen (c - 1) + 1) = 1 / 2 ^ nat (bitlen (c - 1) - 1)"
  proof (cases "bitlen (c - 1) = 1")
    case True
    then show ?thesis by simp
  next
    case False
    with b have "- bitlen (c - 1) + 1 < 0" by simp
    then show ?thesis by (simp add: power_int_def field_simps nat_diff_distrib)
  qed
  show ?thesis unfolding e p1 p2 using A B by simp
qed

lemma to_double_near:
  "\<bar>to_double x - x\<bar> \<le> 2 powi (max (binade x) (- 1022) - 52) / 2"
proof (cases "x = 0")
  case True
  then show ?thesis by (simp add: to_double_def)
next
  case False
  define u :: real where "u = 2 powi (max (binade x) (- 1022) - 52)"
  have u: "0 < u" by (simp add: u_def)
  have "to_double x - x = (of_int (round_half_even (x / u)) - x / u) * u"
    using False u by (simp add: to_double_def Let_def u_def [symmetric] field_simps)
  then have "\<bar>to_double x - x\<bar> = \<bar>of_int (round_half_even (x / u)) - x / u\<bar> * u"
    using u by (simp add: abs_mult)
  also have "\<dots> \<le> (1 / 2) * u"
    using round_half_even_near [of "x / u"] u by (intro mult_right_mono) simp_all
  finally show ?thesis by (simp add: u_def)
qed







section \<open>Verification: what the monitor's methods leave unchanged\<close>

lemma pickup_signal_bits: "pickup_signal p c \<longleftrightarrow> bit p 7 \<and> \<not> bit c 7"
proof -
  have "(p AND 0x80 \<noteq> 0) = bit p 7" for p :: int
    using and_exp_eq_0_iff_not_bit [of p 7] by simp
  then show ?thesis by (simp add: pickup_signal_def)
qed

lemma drop_signal_bits: "drop_signal p c \<longleftrightarrow> \<not> bit p 6 \<and> bit c 6"
proof -
  have "(p AND 0x40 \<noteq> 0) = bit p 6" for p :: int
    using and_exp_eq_0_iff_not_bit [of p 6] by simp
  then show ?thesis by (simp add: drop_signal_def)
qed

lemma frame_create_alert:
  "mlog (create_alert k l w m) = mlog m \<and>
   previous_clamp_status (create_alert k l w m) = previous_clamp_status m \<and>
   correct_origins (create_alert k l w m) = correct_origins m \<and>
   correct_dests (create_alert k l w m) = correct_dests m"
  by (simp add: create_alert_def)

lemma frame_finalize_trip:
  "mlog (finalize_trip l t f m) = mlog m \<and>
   previous_clamp_status (finalize_trip l t f m) = previous_clamp_status m \<and>
   correct_origins (finalize_trip l t f m) = correct_origins m \<and>
   correct_dests (finalize_trip l t f m) = correct_dests m"
  by (simp add: finalize_trip_def Let_def)

lemma frame_finalize_carry:
  "mlog (finalize_carry l t n m) = mlog m \<and>
   previous_clamp_status (finalize_carry l t n m) = previous_clamp_status m \<and>
   correct_origins (finalize_carry l t n m) = correct_origins m \<and>
   correct_dests (finalize_carry l t n m) = correct_dests m"
  by (simp add: finalize_carry_def Let_def)

lemma frame_check_remaining_tasks:
  "mlog (check_remaining_tasks l m) = mlog m \<and>
   previous_clamp_status (check_remaining_tasks l m) = previous_clamp_status m \<and>
   correct_origins (check_remaining_tasks l m) = correct_origins m \<and>
   correct_dests (check_remaining_tasks l m) = correct_dests m"
  by (simp add: check_remaining_tasks_def frame_create_alert)

lemma frame_check_pickup:
  "check_pickup c t m = Inr m' \<Longrightarrow>
   mlog m' = mlog m \<and> previous_clamp_status m' = previous_clamp_status m \<and>
   correct_origins m' = correct_origins m \<and> correct_dests m' = correct_dests m \<and>
   curr_loc_id m' = curr_loc_id m \<and> curr_loc_coords m' = curr_loc_coords m"
  by (auto simp: check_pickup_def split: sum.splits if_splits)

lemma frame_swap_item:
  "swap_item it p c a ds = Inr ds' \<Longrightarrow>
   mlog (ds_monitor ds') = mlog (ds_monitor ds) \<and>
   previous_clamp_status (ds_monitor ds') = previous_clamp_status (ds_monitor ds) \<and>
   correct_origins (ds_monitor ds') = correct_origins (ds_monitor ds) \<and>
   correct_dests (ds_monitor ds') = correct_dests (ds_monitor ds)"
  by (auto simp: swap_item_def label_swapped_def save_task_def cancel_alert_def cancel_rows_def
      Let_def split: sum.splits option.splits if_splits)

lemma frame_check_alleged_wrong_item:
  "check_alleged_wrong_item it d ds = Inr ds' \<Longrightarrow>
   mlog (ds_monitor ds') = mlog (ds_monitor ds) \<and>
   previous_clamp_status (ds_monitor ds') = previous_clamp_status (ds_monitor ds) \<and>
   correct_origins (ds_monitor ds') = correct_origins (ds_monitor ds) \<and>
   correct_dests (ds_monitor ds') = correct_dests (ds_monitor ds)"
  by (auto simp: check_alleged_wrong_item_def decide_swap_def Let_def
      split: sum.splits option.splits if_splits dest: frame_swap_item)

lemma frame_classify_item:
  "classify_item d it ds = Inr ds' \<Longrightarrow>
   mlog (ds_monitor ds') = mlog (ds_monitor ds) \<and>
   previous_clamp_status (ds_monitor ds') = previous_clamp_status (ds_monitor ds) \<and>
   correct_origins (ds_monitor ds') = correct_origins (ds_monitor ds) \<and>
   correct_dests (ds_monitor ds') = correct_dests (ds_monitor ds)"
  by (auto simp: classify_item_def save_task_def Let_def
      split: sum.splits option.splits if_splits dest: frame_check_alleged_wrong_item)

lemma frame_classify_items:
  "classify_items d its ds = Inr ds' \<Longrightarrow>
   mlog (ds_monitor ds') = mlog (ds_monitor ds) \<and>
   previous_clamp_status (ds_monitor ds') = previous_clamp_status (ds_monitor ds) \<and>
   correct_origins (ds_monitor ds') = correct_origins (ds_monitor ds) \<and>
   correct_dests (ds_monitor ds') = correct_dests (ds_monitor ds)"
proof (induction its arbitrary: ds)
  case Nil
  then show ?case by simp
next
  case (Cons it its)
  then obtain ds1 where 1: "classify_item d it ds = Inr ds1"
    and 2: "classify_items d its ds1 = Inr ds'"
    by (auto split: sum.splits)
  from frame_classify_item [OF 1] Cons.IH [OF 2] show ?case by simp
qed

lemma frame_check_job:
  "check_job m = Inr m' \<Longrightarrow>
   mlog m' = mlog m \<and> previous_clamp_status m' = previous_clamp_status m \<and>
   (correct_origins m' = correct_origins m \<or> correct_origins m' = []) \<and>
   (correct_dests m' = correct_dests m \<or> correct_dests m' = [])"
  by (auto simp: check_job_def split: if_splits sum.splits)

lemma frame_check_drop_effects:
  "mlog (check_drop_effects d ds) = mlog (ds_monitor ds) \<and>
   previous_clamp_status (check_drop_effects d ds) = previous_clamp_status (ds_monitor ds) \<and>
   correct_origins (check_drop_effects d ds) = correct_origins (ds_monitor ds) \<and>
   correct_dests (check_drop_effects d ds) = correct_dests (ds_monitor ds)"
  unfolding check_drop_effects_def Let_def
  by (simp add: frame_check_remaining_tasks frame_finalize_carry frame_finalize_trip
      frame_create_alert)

lemma frame_check_drop_post:
  assumes "check_drop_post d ds = Inr m'"
  shows "mlog m' = mlog (ds_monitor ds) \<and>
         previous_clamp_status m' = previous_clamp_status (ds_monitor ds) \<and>
         (correct_origins m' = correct_origins (ds_monitor ds) \<or> correct_origins m' = []) \<and>
         (correct_dests m' = correct_dests (ds_monitor ds) \<or> correct_dests m' = [])"
proof -
  from assms obtain m6 where 1: "check_job (check_drop_effects d ds) = Inr m6"
    and 2: "m' = m6\<lparr>latest_pickup_item_ids := []\<rparr>"
    by (auto simp: check_drop_post_def split: sum.splits)
  from frame_check_job [OF 1] frame_check_drop_effects [of d ds] 2 show ?thesis by auto
qed

lemma frame_check_drop:
  assumes "check_drop d its m = Inr m'"
  shows "mlog m' = mlog m \<and> previous_clamp_status m' = previous_clamp_status m \<and>
         (correct_origins m' = correct_origins m \<or> correct_origins m' = []) \<and>
         (correct_dests m' = correct_dests m \<or> correct_dests m' = [])"
proof -
  from assms obtain ds where
    c: "classify_items d its
          \<lparr>ds_monitor = m, correct_items = [], returned_items = [], wrong_items = []\<rparr> = Inr ds"
    and p: "check_drop_post d ds = Inr m'"
    by (auto simp: check_drop_def split: sum.splits)
  from frame_classify_items [OF c] frame_check_drop_post [OF p] show ?thesis by simp
qed

lemma frame_begin_sample:
  "begin_sample loc m = Inr m' \<Longrightarrow>
   mlog m' = mlog m \<and> correct_origins m' = correct_origins m \<and>
   correct_dests m' = correct_dests m \<and> previous_clamp_status m' = previous_clamp_status m \<and>
   curr_loc_id m' = geo_feature_id loc \<and> curr_loc_coords m' = (loc_x loc, loc_y loc)"
  by (auto simp: begin_sample_def set_loc_data_def update_carry_times_def Let_def
      split: sum.splits option.splits if_splits)

lemma frame_on_pickup_signal:
  "mlog (fst (on_pickup_signal s)) =
     mlog (fst s) @ [LogPickup (curr_loc_id (fst s)) (curr_loc_coords (fst s))] \<and>
   previous_clamp_status (fst (on_pickup_signal s)) = previous_clamp_status (fst s) \<and>
   correct_origins (fst (on_pickup_signal s)) = correct_origins (fst s) \<and>
   correct_dests (fst (on_pickup_signal s)) = correct_dests (fst s) \<and>
   curr_loc_id (fst (on_pickup_signal s)) = curr_loc_id (fst s) \<and>
   curr_loc_coords (fst (on_pickup_signal s)) = curr_loc_coords (fst s)"
  by (simp add: on_pickup_signal_def Let_def finalize_trip_def create_alert_def)

lemma on_drop_signal_Inr:
  "on_drop_signal s = Inr s' \<Longrightarrow>
   \<not> (clamp_check_enabled (fst s) \<and> \<not> drop_check (snd s)) \<and>
   s' = ((fst s)\<lparr>mlog := mlog (fst s) @ [LogDrop (curr_loc_id (fst s)) (curr_loc_coords (fst s))]\<rparr>,
         snd s)"
  by (auto simp: on_drop_signal_def Let_def has_cannot_place_alerts_def clamp_check_enabled_def
      split: sum.splits if_splits)

lemma frame_drop_gate:
  "drop_gate s = Inr s' \<Longrightarrow>
   mlog (fst s') = mlog (fst s) \<and>
   previous_clamp_status (fst s') = previous_clamp_status (fst s) \<and>
   (correct_origins (fst s') = correct_origins (fst s) \<or> correct_origins (fst s') = []) \<and>
   (correct_dests (fst s') = correct_dests (fst s) \<or> correct_dests (fst s') = [])"
  by (auto simp: drop_gate_def Let_def split: sum.splits if_splits option.splits
      dest!: frame_check_drop)

lemma frame_pickup_gate:
  "pickup_gate s = Inr s' \<Longrightarrow>
   mlog (fst s') = mlog (fst s) \<and>
   previous_clamp_status (fst s') = previous_clamp_status (fst s) \<and>
   correct_origins (fst s') = correct_origins (fst s) \<and>
   correct_dests (fst s') = correct_dests (fst s)"
  by (auto simp: pickup_gate_def Let_def split: sum.splits if_splits)

lemma handle_signals_Inr:
  assumes "handle_signals pf df s = Inr s'"
  shows "mlog (fst s') =
           mlog (fst s) @
           (if pf then [LogPickup (curr_loc_id (fst s)) (curr_loc_coords (fst s))] else []) @
           (if df then [LogDrop (curr_loc_id (fst s)) (curr_loc_coords (fst s))] else []) \<and>
         previous_clamp_status (fst s') = previous_clamp_status (fst s) \<and>
         correct_origins (fst s') = correct_origins (fst s) \<and>
         correct_dests (fst s') = correct_dests (fst s)"
proof (cases df)
  case False
  with assms show ?thesis
    by (auto simp: handle_signals_def frame_on_pickup_signal)
next
  case True
  define s1 where "s1 = (if pf then on_pickup_signal s else s)"
  from assms True have "on_drop_signal s1 = Inr s'"
    by (simp add: handle_signals_def s1_def)
  from on_drop_signal_Inr [OF this]
  have "s' = ((fst s1)\<lparr>mlog := mlog (fst s1) @
                 [LogDrop (curr_loc_id (fst s1)) (curr_loc_coords (fst s1))]\<rparr>, snd s1)"
    by simp
  then show ?thesis using True
    by (simp add: s1_def frame_on_pickup_signal)
qed

section \<open>Verification: the run loop\<close>

text \<open>
  C4. The clamp edge detector is a function of the previous and the current clamp status
  alone: the pickup signal fires exactly when bit 0x80 (bit 7) was set and is now clear,
  the drop signal exactly when bit 0x40 (bit 6) was clear and is now set. Both fire on
  one sample for the statuses 0x80 then 0x40; then the drop branch starts from the state
  the pickup branch has left. For every sample the loop body gets through, the stored
  status becomes the sample's, and the lines logged are the pickup line, if its signal
  fired, then the drop line, if its signal fired.
\<close>

theorem clamp_edge_detector:
  "(pickup_signal p c \<longleftrightarrow> bit p 7 \<and> \<not> bit c 7) \<and>
   (drop_signal p c \<longleftrightarrow> \<not> bit p 6 \<and> bit c 6) \<and>
   (pickup_signal 0x80 0x40 \<and> drop_signal 0x80 0x40) \<and>
   handle_signals True True s = on_drop_signal (on_pickup_signal s) \<and>
   (run_sample loc s = Inr s' \<longrightarrow>
      previous_clamp_status (fst s') = clamp_status loc \<and>
      mlog (fst s') =
        mlog (fst s) @
        (if pickup_signal (previous_clamp_status (fst s)) (clamp_status loc)
         then [LogPickup (geo_feature_id loc) (loc_x loc, loc_y loc)] else []) @
        (if drop_signal (previous_clamp_status (fst s)) (clamp_status loc)
         then [LogDrop (geo_feature_id loc) (loc_x loc, loc_y loc)] else []))"
proof (intro conjI impI)
  show "pickup_signal p c \<longleftrightarrow> bit p 7 \<and> \<not> bit c 7" by (rule pickup_signal_bits)
  show "drop_signal p c \<longleftrightarrow> \<not> bit p 6 \<and> bit c 6" by (rule drop_signal_bits)
  show "pickup_signal 0x80 0x40" by (simp add: pickup_signal_def)
  show "drop_signal 0x80 0x40" by (simp add: drop_signal_def)
  show "handle_signals True True s = on_drop_signal (on_pickup_signal s)"
    by (simp add: handle_signals_def)
next
  assume run: "run_sample loc s = Inr s'"
  then obtain m s1 s2 where
    b: "begin_sample loc (fst s) = Inr m" and
    h: "handle_signals (pickup_signal (previous_clamp_status m) (clamp_status loc))
          (drop_signal (previous_clamp_status m) (clamp_status loc))
          (m\<lparr>previous_clamp_status := clamp_status loc\<rparr>, snd s) = Inr s1" and
    d: "drop_gate s1 = Inr s2" and
    g: "pickup_gate s2 = Inr s'"
    by (auto simp: run_sample_def Let_def split: sum.splits)
  note fb = frame_begin_sample [OF b]
  note lh = handle_signals_Inr [OF h]
  note fd = frame_drop_gate [OF d]
  note fg = frame_pickup_gate [OF g]
  show "mlog (fst s') =
        mlog (fst s) @
        (if pickup_signal (previous_clamp_status (fst s)) (clamp_status loc)
         then [LogPickup (geo_feature_id loc) (loc_x loc, loc_y loc)] else []) @
        (if drop_signal (previous_clamp_status (fst s)) (clamp_status loc)
         then [LogDrop (geo_feature_id loc) (loc_x loc, loc_y loc)] else [])"
    using fb lh fd fg by simp
  show "previous_clamp_status (fst s') = clamp_status loc"
    using fb lh fd fg by simp
qed

theorem clamp_edge_detector_witness:
  "\<exists>s'. run_sample demo_aisle_sample (demo_monitor\<lparr>previous_clamp_status := 0x80\<rparr>, demo_locals)
           = Inr s' \<and>
         previous_clamp_status (fst s') = 0x40 \<and>
         mlog (fst s') = [LogPickup 3 (4, 0), LogDrop 3 (4, 0)]"
proof -
  have "\<exists>s'. run_sample demo_aisle_sample
                (demo_monitor\<lparr>previous_clamp_status := 0x80\<rparr>, demo_locals) = Inr s'"
    by (simp add: run_sample_def begin_sample_def set_loc_data_def demo_monitor_def
        demo_locals_def demo_aisle_sample_def update_carry_times_def Carry_def append_trip_def
        Trip_def map_last_def append_coords_def append_speed_def handle_signals_def
        on_pickup_signal_def on_drop_signal_def clamp_check_enabled_def drop_gate_def
        pickup_gate_def drop_signal_def pickup_signal_def Let_def)
  then obtain s' where r: "run_sample demo_aisle_sample
                (demo_monitor\<lparr>previous_clamp_status := 0x80\<rparr>, demo_locals) = Inr s'" ..
  from clamp_edge_detector
         [of 0 0 "(demo_monitor\<lparr>previous_clamp_status := 0x80\<rparr>, demo_locals)"
             demo_aisle_sample s'] r
  have "previous_clamp_status (fst s') = 0x40 \<and>
        mlog (fst s') = [LogPickup 3 (4, 0), LogDrop 3 (4, 0)]"
    by (simp add: demo_monitor_def demo_aisle_sample_def pickup_signal_def drop_signal_def)
  with r show ?thesis by blast
qed

lemma drop_branch_always_fails:
  "clamp_check_enabled (fst s) \<Longrightarrow> \<not> drop_check (snd s) \<Longrightarrow> \<exists>e. on_drop_signal s = Inl e"
  using on_drop_signal_Inr [of s] by (cases "on_drop_signal s") auto

text \<open>
  C6 (the code fails the claim). A drop signal at the stow location 2, with no drop
  validation pending: the loop body ends with \<^verbatim>\<open>AttributeError\<close>, raised by the lookup
  of \<^verbatim>\<open>has_cannot_place_alerts\<close> on the data-access handler. By
  \<open>drop_branch_always_fails\<close> the branch fails so for every such sample.
\<close>

theorem drop_signal_raises_AttributeError:
  "drop_signal (previous_clamp_status demo_monitor) (clamp_status demo_drop_sample) \<and>
   loc_type demo_drop_sample \<noteq> ''aisle'' \<and> loc_type demo_drop_sample \<noteq> ''charging'' \<and>
   \<not> drop_check demo_locals \<and>
   run_sample demo_drop_sample (demo_monitor, demo_locals) = Inl AttributeError"
  by (simp add: run_sample_def begin_sample_def set_loc_data_def demo_monitor_def demo_locals_def
      demo_drop_sample_def
      update_carry_times_def Carry_def append_trip_def Trip_def map_last_def append_coords_def
      append_speed_def handle_signals_def on_pickup_signal_def on_drop_signal_def
      clamp_check_enabled_def drop_signal_def pickup_signal_def Let_def
      check_pickup_def has_cannot_place_alerts_def add_stow_time_def)

section \<open>Verification: job completion\<close>

lemma quiet_run_sample:
  assumes "run_sample loc s = Inr s'"
    and "correct_origins (fst s) = []" and "correct_dests (fst s) = []"
  shows "correct_origins (fst s') = [] \<and> correct_dests (fst s') = []"
proof -
  from assms(1) obtain m s1 s2 where
    b: "begin_sample loc (fst s) = Inr m" and
    h: "handle_signals (pickup_signal (previous_clamp_status m) (clamp_status loc))
          (drop_signal (previous_clamp_status m) (clamp_status loc))
          (m\<lparr>previous_clamp_status := clamp_status loc\<rparr>, snd s) = Inr s1" and
    d: "drop_gate s1 = Inr s2" and
    g: "pickup_gate s2 = Inr s'"
    by (auto simp: run_sample_def Let_def split: sum.splits)
  from frame_begin_sample [OF b] handle_signals_Inr [OF h] frame_drop_gate [OF d]
    frame_pickup_gate [OF g] assms(2,3)
  show ?thesis by auto
qed

lemma quiet_apply_op:
  assumes "apply_op op s = Inr s'"
    and "correct_origins (fst s) = []" and "correct_dests (fst s) = []"
  shows "correct_origins (fst s') = [] \<and> correct_dests (fst s') = []"
proof (cases op)
  case (LocSample loc)
  with assms show ?thesis by (simp add: apply_op_def quiet_run_sample)
next
  case JobActiveCheck
  with assms show ?thesis
    by (auto simp: apply_op_def is_job_active_def split: if_splits)
next
  case (ScenarioPickup t l ids)
  with assms show ?thesis
    by (auto simp: apply_op_def simulate_pickup_def Let_def frame_finalize_trip)
next
  case (ScenarioDrop t l ids)
  with assms obtain m' where
    "check_drop l (get_item_data (db_connection (fst s)) ids)
       ((fst s)\<lparr>curr_loc_time := t, curr_loc_time_set := True,
                drop_history := drop_history (fst s) @ [l]\<rparr>) = Inr m'" and "s' = (m', snd s)"
    by (auto simp: apply_op_def simulate_drop_def Let_def split: sum.splits)
  with frame_check_drop [OF this(1)] assms(2,3) show ?thesis by auto
next
  case (StoreWrite new)
  with assms show ?thesis by (auto simp: apply_op_def)
qed

lemma quiet_run_ops:
  "run_ops ops s = Inr s' \<Longrightarrow> correct_origins (fst s) = [] \<Longrightarrow> correct_dests (fst s) = [] \<Longrightarrow>
   correct_origins (fst s') = [] \<and> correct_dests (fst s') = []"
proof (induction ops arbitrary: s)
  case Nil
  then show ?case by simp
next
  case (Cons op ops)
  from Cons.prems(1) obtain s1 where 1: "apply_op op s = Inr s1" and 2: "run_ops ops s1 = Inr s'"
    by (auto split: sum.splits)
  from quiet_apply_op [OF 1 Cons.prems(2,3)] Cons.IH [OF 2] show ?case by simp
qed


lemma save_all_trips_dry_run: "\<not> db_active db \<Longrightarrow> save_all_trips cs db = Inr db"
  by (induction cs) (simp_all add: save_trips_def)

lemma save_all_trips_closed:
  "list_all (\<lambda>c. trips c \<noteq> [] \<and> list_all (\<lambda>t. trip_dest t \<noteq> None) (trips c)) cs \<Longrightarrow>
   save_all_trips cs db = Inr db"
  by (induction cs) (auto simp: save_trips_def list_ex_iff list_all_iff)

lemma save_all_trips_open_trip:
  "db_active db \<Longrightarrow> c \<in> set cs \<Longrightarrow> t \<in> set (trips c) \<Longrightarrow> trip_dest t = None \<Longrightarrow>
   save_all_trips cs db = Inl ProgrammingError"
proof (induction cs)
  case Nil
  then show ?case by simp
next
  case (Cons a cs)
  show ?case
  proof (cases "save_trips a db")
    case (Inl e)
    then show ?thesis by (auto simp: save_trips_def split: if_splits)
  next
    case (Inr db1)
    then have 1: "db1 = db" and 2: "\<not> list_ex (\<lambda>t. trip_dest t = None) (trips a)"
      using Cons.prems(1) by (auto simp: save_trips_def split: if_splits)
    from 2 Cons.prems(3,4) have "c \<noteq> a" by (auto simp: list_ex_iff)
    with Cons.prems(2) have "c \<in> set cs" by simp
    from Cons.IH [OF Cons.prems(1) this Cons.prems(3,4)] Inr 1 show ?thesis by simp
  qed
qed

lemma save_carries_dry_run:
  "\<not> db_active db \<Longrightarrow> save_carries cs db = Inr (db\<lparr>calls := calls db @ [SaveCarries cs]\<rparr>)"
  by (simp add: save_carries_def Let_def save_all_trips_dry_run)

lemma save_carries_closed:
  "cs \<noteq> [] \<Longrightarrow>
   list_all (\<lambda>c. unit_count c \<noteq> None \<and> trips c \<noteq> [] \<and>
                  list_all (\<lambda>t. trip_dest t \<noteq> None) (trips c)) cs \<Longrightarrow>
   save_carries cs db = Inr (db\<lparr>calls := calls db @ [SaveCarries cs]\<rparr>)"
proof -
  assume 1: "cs \<noteq> []"
    and 2: "list_all (\<lambda>c. unit_count c \<noteq> None \<and> trips c \<noteq> [] \<and>
                  list_all (\<lambda>t. trip_dest t \<noteq> None) (trips c)) cs"
  from 2 have 3: "\<not> list_ex (\<lambda>c. unit_count c = None) cs"
    by (auto simp: list_ex_iff list_all_iff)
  from 2 have 4: "list_all (\<lambda>c. trips c \<noteq> [] \<and> list_all (\<lambda>t. trip_dest t \<noteq> None) (trips c)) cs"
    by (auto simp: list_all_iff)
  from 1 3 show ?thesis
    by (simp add: save_carries_def Let_def save_all_trips_closed [OF 4])
qed

lemma save_carries_open_trip:
  "db_active db \<Longrightarrow> c \<in> set cs \<Longrightarrow> t \<in> set (trips c) \<Longrightarrow> trip_dest t = None \<Longrightarrow>
   save_carries cs db = Inl ProgrammingError"
  using save_all_trips_open_trip [of "db\<lparr>calls := calls db @ [SaveCarries cs]\<rparr>" c cs t]
  by (simp add: save_carries_def Let_def)

text \<open>
  When \<^verbatim>\<open>check_job\<close> finds the job complete (there are tasks, none is open, and
  \<^verbatim>\<open>has_active_alerts\<close> is false) and returns, the lists \<open>tasks\<close>, \<open>correct_origins\<close>
  and \<open>correct_dests\<close> are empty, and \<open>correct_origins\<close> and \<open>correct_dests\<close> are
  still empty after every sequence of operations run on the monitor from the state in
  which the enclosing \<^verbatim>\<open>check_drop\<close> returns. (The one statement that appends to
  \<open>correct_dests\<close> after construction stands behind the lookup of
  \<^verbatim>\<open>has_cannot_place_alerts\<close>, which raises.) It returns whenever
  \<^verbatim>\<open>save_carries\<close> does.
\<close>

lemma check_job_clears_for_good:
  assumes "tasks m \<noteq> []" and "\<not> has_active_tasks m"
    and "\<not> db_has_active_alerts (db_connection m)"
    and "check_job m = Inr m'"
  shows "tasks m' = [] \<and> correct_origins m' = [] \<and> correct_dests m' = [] \<and>
         (\<forall>ops l s'. run_ops ops (m'\<lparr>latest_pickup_item_ids := []\<rparr>, l) = Inr s' \<longrightarrow>
            correct_origins (fst s') = [] \<and> correct_dests (fst s') = [])"
proof -
  from assms have c: "tasks m' = [] \<and> correct_origins m' = [] \<and> correct_dests m' = []"
    by (auto simp: check_job_def split: sum.splits)
  moreover have "correct_origins (fst s') = [] \<and> correct_dests (fst s') = []"
    if "run_ops ops (m'\<lparr>latest_pickup_item_ids := []\<rparr>, l) = Inr s'" for ops l s'
    using quiet_run_ops [OF that] c by simp
  ultimately show ?thesis by blast
qed

lemma check_job_returns:
  "save_carries (carries m) (db_connection m) = Inr db' \<Longrightarrow> \<exists>m'. check_job m = Inr m'"
  by (simp add: check_job_def)

lemma check_job_raises:
  "tasks m \<noteq> [] \<Longrightarrow> \<not> has_active_tasks m \<Longrightarrow> \<not> db_has_active_alerts (db_connection m) \<Longrightarrow>
   save_carries (carries m) (db_connection m) = Inl e \<Longrightarrow> check_job m = Inl e"
  by (simp add: check_job_def)

text \<open>
  The single task closed by a drop of item 7 at its destination 5: the trip and the carry
  are closed, \<^verbatim>\<open>check_job\<close> returns, and the three lists are empty.
\<close>

lemma drop_closes_single_task:
  "d = 5 \<or> d = 79 \<Longrightarrow>
   classify_items d [demo_item 7 1] (fresh_labels (dropping_monitor d)) = Inr (dropped_labels d)"
  by (auto simp: classify_item_def should_check_item_at_drop_def NOE_loc_def save_task_def
      finalize_task_def save_item_loc_def fresh_labels_def dropping_monitor_def
      picked_monitor_def single_task_monitor_def demo_monitor_def demo_store_def demo_item_def
      dropped_labels_def Task_def Let_def)

lemma scenario_drop_single_task:
  "simulate_drop d [7] (picked_monitor\<lparr>curr_loc_time := 20000000, curr_loc_time_set := True\<rparr>) =
     check_drop d [demo_item 7 1] (dropping_monitor d)"
  by (simp add: simulate_drop_def get_item_data_def item_of_row_def
      dropping_monitor_def picked_monitor_def single_task_monitor_def demo_monitor_def
      demo_store_def demo_item_def Let_def)

lemma completion_monitor_5:
  "tasks (completion_monitor 5) =
     [finalize_task (dropping_monitor 5) (Task 1 ''A'' 1 5) (demo_item 7 1)] \<and>
   carries (completion_monitor 5) =
     [Carry_finished 5 1 20000000
        ((Carry 1 0 1)\<lparr>trips := [Trip_finished 5 20000000 (Trip 1 0 1)]\<rparr>)] \<and>
   correct_origins (completion_monitor 5) = [1] \<and>
   correct_dests (completion_monitor 5) = [5] \<and>
   db_active (db_connection (completion_monitor 5)) \<and>
   db_job_id (db_connection (completion_monitor 5)) = 1 \<and>
   alerts (db_connection (completion_monitor 5)) = []"
  by (simp add: completion_monitor_def check_drop_effects_def dropped_labels_def
      dropping_monitor_def picked_monitor_def single_task_monitor_def demo_monitor_def
      demo_store_def demo_settings_def demo_item_def Task_def finalize_task_def
      save_item_loc_def cancel_item_alerts_def cancel_rows_def finalize_carry_def
      finalize_trip_def Carry_def append_trip_def
      check_remaining_tasks_def cancel_remaining_tasks_alert_def has_active_tasks_def
      map_last_def Let_def cong: let_weak_cong)

lemma drop_at_dest_completes_job:
  "\<exists>m'. apply_op (ScenarioDrop 20000000 5 [7]) (picked_monitor, demo_locals) =
           Inr (m', demo_locals) \<and>
         tasks m' = [] \<and> correct_origins m' = [] \<and> correct_dests m' = [] \<and>
         latest_pickup_item_ids m' = []"
proof -
  note c = completion_monitor_5
  have g: "tasks (completion_monitor 5) \<noteq> []" "\<not> has_active_tasks (completion_monitor 5)"
    "\<not> db_has_active_alerts (db_connection (completion_monitor 5))"
    using c by (simp_all add: has_active_tasks_def finalize_task_def db_has_active_alerts_def)
  have "save_carries (carries (completion_monitor 5)) (db_connection (completion_monitor 5)) =
          Inr ((db_connection (completion_monitor 5))
                 \<lparr>calls := calls (db_connection (completion_monitor 5)) @
                            [SaveCarries (carries (completion_monitor 5))]\<rparr>)"
    using c by (intro save_carries_closed)
      (simp_all add: Carry_finished_def Trip_finished_def Let_def)
  from check_job_returns [OF this] obtain m6 where
    m6: "check_job (completion_monitor 5) = Inr m6" ..
  from check_job_clears_for_good [OF g m6]
  have e: "tasks m6 = [] \<and> correct_origins m6 = [] \<and> correct_dests m6 = []" by blast
  have "check_drop 5 [demo_item 7 1] (dropping_monitor 5) =
          Inr (m6\<lparr>latest_pickup_item_ids := []\<rparr>)"
    using drop_closes_single_task [of 5] m6
    by (simp add: check_drop_def check_drop_post_def fresh_labels_def completion_monitor_def)
  with e show ?thesis
    by (simp add: apply_op_def scenario_drop_single_task)
qed

lemma completion_monitor_79:
  "tasks (completion_monitor 79) =
     [finalize_task (dropping_monitor 79) (Task 1 ''A'' 1 5) (demo_item 7 1)] \<and>
   carries (completion_monitor 79) = [Carry_finished 79 1 20000000 (Carry 1 0 1)] \<and>
   correct_origins (completion_monitor 79) = [1] \<and>
   correct_dests (completion_monitor 79) = [5] \<and>
   db_active (db_connection (completion_monitor 79)) \<and>
   db_job_id (db_connection (completion_monitor 79)) = 1 \<and>
   alerts (db_connection (completion_monitor 79)) = []"
  by (simp add: completion_monitor_def check_drop_effects_def dropped_labels_def
      dropping_monitor_def picked_monitor_def single_task_monitor_def demo_monitor_def
      demo_store_def demo_settings_def demo_item_def Task_def finalize_task_def
      save_item_loc_def cancel_item_alerts_def cancel_rows_def finalize_carry_def
      check_remaining_tasks_def cancel_remaining_tasks_alert_def has_active_tasks_def
      map_last_def Let_def cong: let_weak_cong)

text \<open>
  C5 (the code fails the claim). The single task is closed by a drop of item 7 at the NOE
  location 79, played by the scenario player after the pickup at location 1, with queries
  active. Location 79 is not in \<open>correct_dests\<close>, so the trip is left open while the
  carry is closed. On the monitor on which \<^verbatim>\<open>check_drop\<close> then calls \<^verbatim>\<open>check_job\<close>
  (\<open>completion_monitor 79\<close>) there are tasks, none is open and no alert is active, so
  the job is complete; \<^verbatim>\<open>save_carries\<close> formats the
  \<open>dest\<close> of the open trip, \<^verbatim>\<open>None\<close>, into its \<^verbatim>\<open>INSERT\<close>, and \<^verbatim>\<open>check_job\<close> ends
  with \<^verbatim>\<open>ProgrammingError\<close> before it clears the lists: \<open>correct_origins\<close> and
  \<open>correct_dests\<close> keep their entries. When \<^verbatim>\<open>check_job\<close> returns, the lists are
  cleared for good (\<open>check_job_clears_for_good\<close>), as after the drop at location 5
  (\<open>drop_at_dest_completes_job\<close>).
\<close>

theorem noe_drop_completion_raises_ProgrammingError:
  "apply_op (ScenarioPickup 10000000 1 [7]) (single_task_monitor, demo_locals) =
     Inr (picked_monitor, demo_locals) \<and>
   get_item_data (db_connection picked_monitor) [7] = [demo_item 7 1] \<and>
   classify_items 79 [demo_item 7 1] (fresh_labels (dropping_monitor 79)) =
     Inr (dropped_labels 79) \<and>
   tasks (completion_monitor 79) \<noteq> [] \<and>
   \<not> has_active_tasks (completion_monitor 79) \<and>
   \<not> db_has_active_alerts (db_connection (completion_monitor 79)) \<and>
   db_active (db_connection (completion_monitor 79)) \<and>
   map unit_count (carries (completion_monitor 79)) = [Some 1] \<and>
   map (map trip_dest) (map trips (carries (completion_monitor 79))) = [[None]] \<and>
   correct_origins (completion_monitor 79) = [1] \<and>
   correct_dests (completion_monitor 79) = [5] \<and>
   check_job (completion_monitor 79) = Inl ProgrammingError \<and>
   apply_op (ScenarioDrop 20000000 79 [7]) (picked_monitor, demo_locals) = Inl ProgrammingError"
proof -
  note c = completion_monitor_79
  have p: "apply_op (ScenarioPickup 10000000 1 [7]) (single_task_monitor, demo_locals) =
             Inr (picked_monitor, demo_locals)"
    by (simp add: apply_op_def simulate_pickup_def finalize_trip_def picked_monitor_def
        single_task_monitor_def demo_monitor_def Carry_def append_trip_def Trip_def Let_def)
  have i: "get_item_data (db_connection picked_monitor) [7] = [demo_item 7 1]"
    by (simp add: get_item_data_def item_of_row_def picked_monitor_def single_task_monitor_def
        demo_monitor_def demo_store_def demo_item_def)
  have l: "classify_items 79 [demo_item 7 1] (fresh_labels (dropping_monitor 79)) =
             Inr (dropped_labels 79)"
    by (rule drop_closes_single_task) simp
  have g: "tasks (completion_monitor 79) \<noteq> []" "\<not> has_active_tasks (completion_monitor 79)"
    "\<not> db_has_active_alerts (db_connection (completion_monitor 79))"
    using c by (simp_all add: has_active_tasks_def finalize_task_def db_has_active_alerts_def)
  have u: "map unit_count (carries (completion_monitor 79)) = [Some 1]"
    "map (map trip_dest) (map trips (carries (completion_monitor 79))) = [[None]]"
    using c by (simp_all add: Carry_finished_def Carry_def append_trip_def Trip_def Let_def)
  have s: "save_carries (carries (completion_monitor 79)) (db_connection (completion_monitor 79))
             = Inl ProgrammingError"
    using c
    by (simp add: save_carries_def save_trips_def Carry_finished_def Carry_def append_trip_def
        Trip_def Let_def)
  have j: "check_job (completion_monitor 79) = Inl ProgrammingError"
    using g s by (rule check_job_raises)
  have d: "apply_op (ScenarioDrop 20000000 79 [7]) (picked_monitor, demo_locals) =
             Inl ProgrammingError"
    using drop_closes_single_task [of 79] j
    by (simp add: apply_op_def scenario_drop_single_task check_drop_def check_drop_post_def
        fresh_labels_def completion_monitor_def)
  from c have o: "correct_origins (completion_monitor 79) = [1]"
    "correct_dests (completion_monitor 79) = [5]" "db_active (db_connection (completion_monitor 79))"
    by simp_all
  show ?thesis
    by (intro conjI p i l g u o j d)
qed

section \<open>Verification: trips\<close>

lemma last_map_last: "xs \<noteq> [] \<Longrightarrow> last (map_last f xs) = f (last xs)"
  by (simp add: map_last_def)

lemma nth_map_last: "xs \<noteq> [] \<Longrightarrow> map_last f xs ! (length xs - Suc 0) = f (last xs)"
  by (simp add: map_last_def nth_append)

lemma length_map_last: "length (map_last f xs) = length xs"
  by (simp add: map_last_def)

lemma map_last_nonempty: "xs \<noteq> [] \<Longrightarrow> map_last f xs \<noteq> []"
  by (simp add: map_last_def)

text \<open>
  C8. With an open trip in the current carry: a call of \<^verbatim>\<open>finalize_trip\<close> at the trip's
  origin with \<open>carry_finished\<close> false leaves the whole monitor, and so the trip, as it was;
  every other call closes the trip at the given location; hence a call at the trip's
  origin that changes the trip has \<open>carry_finished\<close> true.
\<close>

theorem finalize_trip_at_origin:
  assumes "carries m \<noteq> []" and "trips (last (carries m)) \<noteq> []"
  shows "let tr = last (trips (last (carries m)));
             k = length (trips (last (carries m))) - 1;
             m' = finalize_trip location event_time carry_finished m
         in (trip_origin tr = location \<and> \<not> carry_finished \<longrightarrow> m' = m) \<and>
            (\<not> (trip_origin tr = location \<and> \<not> carry_finished) \<longrightarrow>
               trips (last (carries m')) ! k = Trip_finished location event_time tr \<and>
               trip_dest (trips (last (carries m')) ! k) = Some location) \<and>
            (trips (last (carries m')) ! k \<noteq> tr \<longrightarrow> trip_origin tr = location \<longrightarrow>
               carry_finished)"
proof -
  define tr where "tr = last (trips (last (carries m)))"
  define k where "k = length (trips (last (carries m))) - 1"
  define m' where "m' = finalize_trip location event_time carry_finished m"
  have 1: "m' = m" if "trip_origin tr = location \<and> \<not> carry_finished"
    using that assms by (simp add: m'_def tr_def finalize_trip_def)
  have 2: "trips (last (carries m')) ! k = Trip_finished location event_time tr"
    if "\<not> (trip_origin tr = location \<and> \<not> carry_finished)"
    using that assms
    by (auto simp: m'_def tr_def k_def finalize_trip_def Let_def last_map_last nth_map_last
        map_last_nonempty append_trip_def nth_append length_map_last)
  have 3: "trip_dest (Trip_finished location event_time tr) = Some location"
    by (simp add: Trip_finished_def)
  have 4: "carry_finished" if c: "trips (last (carries m')) ! k \<noteq> tr" "trip_origin tr = location"
  proof (rule ccontr)
    assume "\<not> carry_finished"
    with c(2) 1 have "m' = m" by simp
    moreover have "trips (last (carries m)) ! k = tr"
      using assms(2) by (simp add: tr_def k_def last_conv_nth)
    ultimately show False using c(1) by simp
  qed
  have "(trip_origin tr = location \<and> \<not> carry_finished \<longrightarrow> m' = m) \<and>
        (\<not> (trip_origin tr = location \<and> \<not> carry_finished) \<longrightarrow>
           trips (last (carries m')) ! k = Trip_finished location event_time tr \<and>
           trip_dest (trips (last (carries m')) ! k) = Some location) \<and>
        (trips (last (carries m')) ! k \<noteq> tr \<longrightarrow> trip_origin tr = location \<longrightarrow>
           carry_finished)"
    using 1 2 3 4 by metis
  then show ?thesis
    by (simp only: Let_def tr_def k_def m'_def)
qed

theorem finalize_trip_at_origin_witness:
  "carries demo_monitor \<noteq> [] \<and> trips (last (carries demo_monitor)) \<noteq> [] \<and>
   trip_origin (last (trips (last (carries demo_monitor)))) = 1 \<and>
   finalize_trip 1 20000000 False demo_monitor = demo_monitor \<and>
   trips (last (carries (finalize_trip 1 20000000 True demo_monitor))) ! 0 =
     Trip_finished 1 20000000 (Trip 1 0 1) \<and>
   trips (last (carries (finalize_trip 2 20000000 False demo_monitor))) ! 0 =
     Trip_finished 2 20000000 (Trip 1 0 1)"
proof -
  have c: "carries demo_monitor \<noteq> []" "trips (last (carries demo_monitor)) \<noteq> []"
    by (simp_all add: demo_monitor_def Carry_def append_trip_def)
  have t: "last (trips (last (carries demo_monitor))) = Trip 1 0 1"
    "length (trips (last (carries demo_monitor))) - 1 = 0"
    by (simp_all add: demo_monitor_def Carry_def append_trip_def)
  have o: "trip_origin (Trip 1 0 1) = 1"
    by (simp add: Trip_def)
  from finalize_trip_at_origin [OF c, of 1 20000000 False]
    finalize_trip_at_origin [OF c, of 1 20000000 True]
    finalize_trip_at_origin [OF c, of 2 20000000 False] c
  show ?thesis
    unfolding Let_def t o by simp
qed

section \<open>Verification: the pickup window\<close>

lemma timedelta_seconds_60: "timedelta_seconds 60 = 60000000"
  by (simp add: timedelta_seconds_def round_half_even_def)

lemma scan_loc_data_latest:
  assumes "sorted_wrt (\<lambda>a b. loc_timestamp a \<ge> loc_timestamp b) ls"
  shows "scan_loc_data cfg c ls d =
           (if filter (\<lambda>l. get_distance c (loc_x l, loc_y l) \<ge> pickup_check_distance_window cfg) ls = []
            then d
            else Max (loc_timestamp `
                   set (filter (\<lambda>l. get_distance c (loc_x l, loc_y l)
                                       \<ge> pickup_check_distance_window cfg) ls)))"
  using assms
proof (induction ls)
  case Nil
  then show ?case by simp
next
  case (Cons l ls)
  show ?case
  proof (cases "get_distance c (loc_x l, loc_y l) \<ge> pickup_check_distance_window cfg")
    case True
    have "\<forall>x \<in> set ls. loc_timestamp x \<le> loc_timestamp l"
      using Cons.prems by simp
    then have "Max (insert (loc_timestamp l) (loc_timestamp `
                 set (filter (\<lambda>l. get_distance c (loc_x l, loc_y l)
                                       \<ge> pickup_check_distance_window cfg) ls))) = loc_timestamp l"
      by (intro Max_eqI) auto
    with True show ?thesis by simp
  next
    case False
    with Cons show ?thesis by simp
  qed
qed

lemma circle_loc_data_sorted:
  "sorted_wrt (\<lambda>a b. loc_timestamp a \<ge> loc_timestamp b) (circle_loc_data db lo hi)"
proof -
  have "sorted (map loc_timestamp (sort_key loc_timestamp
          (filter (\<lambda>l. loc_truck_id l = db_truck_id db \<and> lo \<le> loc_timestamp l \<and>
                        loc_timestamp l \<le> hi) (loc_data db))))"
    by simp
  then show ?thesis
    unfolding circle_loc_data_def sorted_map sorted_wrt_rev .
qed

lemma set_circle_loc_data:
  "set (circle_loc_data db lo hi) =
     {l \<in> set (loc_data db). loc_truck_id l = db_truck_id db \<and> lo \<le> loc_timestamp l \<and>
        loc_timestamp l \<le> hi}"
  by (auto simp: circle_loc_data_def)

text \<open>
  C7. The window that \<^verbatim>\<open>__get_load_data_inside_circle\<close> passes to
  \<^verbatim>\<open>__get_load_data\<close> starts at the greatest timestamp among this truck's location
  samples in [pickup\_time - 60 s, pickup\_time] that lie at least
  \<^verbatim>\<open>pickup_check_distance_window\<close> from the pickup coordinates, and at
  pickup\_time - 60 s when there is none; so it never starts before pickup\_time - 60 s.
  It ends at pickup\_time + \<^verbatim>\<open>pickup_post_seconds\<close>.
\<close>

theorem pickup_load_window:
  "let far = {l \<in> set (loc_data db).
                loc_truck_id l = db_truck_id db \<and>
                pickup_time - 60000000 \<le> loc_timestamp l \<and> loc_timestamp l \<le> pickup_time \<and>
                get_distance pickup_coords (loc_x l, loc_y l)
                  \<ge> pickup_check_distance_window (db_config db)};
       w = load_window db pickup_coords pickup_time
   in fst w = (if far = {} then pickup_time - 60000000 else Max (loc_timestamp ` far)) \<and>
      pickup_time - 60000000 \<le> fst w \<and> fst w \<le> pickup_time \<and>
      snd w = pickup_time + timedelta_seconds (pickup_post_seconds (db_config db)) \<and>
      get_load_data_inside_circle db pickup_coords pickup_time = get_load_data db (fst w) (snd w)"
proof -
  define P where "P = (\<lambda>l :: loc_row. get_distance pickup_coords (loc_x l, loc_y l)
                  \<ge> pickup_check_distance_window (db_config db))"
  define ls where "ls = circle_loc_data db (pickup_time - 60000000) pickup_time"
  define far where "far = {l \<in> set (loc_data db).
                loc_truck_id l = db_truck_id db \<and>
                pickup_time - 60000000 \<le> loc_timestamp l \<and> loc_timestamp l \<le> pickup_time \<and> P l}"
  have far: "set (filter P ls) = far"
    by (auto simp: ls_def far_def set_circle_loc_data)
  have fin: "finite far" by (simp add: far_def)
  have s: "scan_loc_data (db_config db) pickup_coords ls (pickup_time - 60000000) =
             (if filter P ls = [] then pickup_time - 60000000
              else Max (loc_timestamp ` set (filter P ls)))"
    unfolding ls_def P_def by (rule scan_loc_data_latest [OF circle_loc_data_sorted])
  have e: "(filter P ls = []) = (far = {})"
    using far by (metis set_empty)
  have w0: "fst (load_window db pickup_coords pickup_time) =
              scan_loc_data (db_config db) pickup_coords ls (pickup_time - 60000000)"
    by (simp add: load_window_def Let_def timedelta_seconds_60 ls_def)
  have w1: "fst (load_window db pickup_coords pickup_time) =
          (if far = {} then pickup_time - 60000000 else Max (loc_timestamp ` far))"
    unfolding w0 s e far ..
  have w2: "pickup_time - 60000000 \<le> fst (load_window db pickup_coords pickup_time) \<and>
            fst (load_window db pickup_coords pickup_time) \<le> pickup_time"
  proof (cases "far = {}")
    case True
    with w1 show ?thesis by simp
  next
    case False
    then have "Max (loc_timestamp ` far) \<in> loc_timestamp ` far"
      using fin by (intro Max_in) auto
    then obtain l where "l \<in> far" "Max (loc_timestamp ` far) = loc_timestamp l"
      by auto
    moreover from this(1) have "pickup_time - 60000000 \<le> loc_timestamp l \<and>
        loc_timestamp l \<le> pickup_time"
      by (simp add: far_def)
    ultimately show ?thesis using w1 False by simp
  qed
  have w3: "snd (load_window db pickup_coords pickup_time) =
            pickup_time + timedelta_seconds (pickup_post_seconds (db_config db))"
    by (simp add: load_window_def Let_def)
  have g: "get_load_data_inside_circle db pickup_coords pickup_time =
             get_load_data db (fst (load_window db pickup_coords pickup_time))
               (snd (load_window db pickup_coords pickup_time))"
    by (simp add: get_load_data_inside_circle_def)
  from w1 w2 w3 g show ?thesis
    unfolding Let_def far_def P_def by blast
qed

lemma get_distance_same_y: "get_distance (a, y) (b, y) = \<bar>a - b\<bar>"
  by (simp add: get_distance_def)

theorem pickup_load_window_witness:
  "load_window window_store (0, 0) 100000000 = (70000000, 101000000) \<and>
   get_load_data_inside_circle window_store (0, 0) 100000000 =
     get_load_data window_store 70000000 101000000"
proof -
  have w: "load_window window_store (0, 0) 100000000 = (70000000, 101000000)"
    by (simp add: load_window_def circle_loc_data_def window_store_def window_sample_def
        demo_store_def demo_settings_def timedelta_seconds_def round_half_even_def Let_def
        get_distance_same_y)
  from pickup_load_window [where db = window_store and pickup_coords = "(0, 0)"
      and pickup_time = 100000000]
  have "get_load_data_inside_circle window_store (0, 0) 100000000 =
        get_load_data window_store (fst (load_window window_store (0, 0) 100000000))
          (snd (load_window window_store (0, 0) 100000000))"
    unfolding Let_def by blast
  with w show ?thesis by simp
qed

lemma pickup_load_window_no_far_sample:
  "load_window (window_store\<lparr>loc_data := [window_sample 1 90 3, window_sample 1 30 50]\<rparr>)
     (0, 0) 100000000 = (40000000, 101000000)"
  by (simp add: load_window_def circle_loc_data_def window_store_def window_sample_def
      demo_store_def demo_settings_def timedelta_seconds_def round_half_even_def Let_def
      get_distance_same_y)

section \<open>Verification: drop validation\<close>

lemma first_index_Some:
  "first_index P xs = Some j \<longleftrightarrow> j < length xs \<and> P (xs ! j) \<and> (\<forall>i<j. \<not> P (xs ! i))"
proof (induction xs arbitrary: j)
  case Nil
  then show ?case by simp
next
  case (Cons x xs)
  show ?case
  proof (cases "P x")
    case True
    then show ?thesis by (cases j) auto
  next
    case False
    show ?thesis
    proof (cases j)
      case 0
      with False show ?thesis by auto
    next
      case (Suc n)
      with False Cons.IH [of n] show ?thesis
        by (auto simp: less_Suc_eq_0_disj)
    qed
  qed
qed

lemma first_index_None: "first_index P xs = None \<longleftrightarrow> (\<forall>x \<in> set xs. \<not> P x)"
  by (induction xs) auto

lemma scan_tasks_first_index:
  "scan_tasks it d ts k =
     map_option (\<lambda>j. j + k)
       (first_index (\<lambda>t. \<not> task_complete t \<and> item_model it = task_model t \<and>
                          serial_lock it = 0 \<and> item_origin it = task_origin t \<and>
                          (d = task_dest t \<or> d = NOE_loc)) ts)"
  by (induction ts arbitrary: k) (auto simp: option.map_comp comp_def)

lemma save_task_finalized:
  "save_task (finalize_task m t it) db =
     Inr (db\<lparr>calls := calls db @ [SaveTask (finalize_task m t it)]\<rparr>)"
  by (simp add: save_task_def finalize_task_def)

text \<open>
  C1 (amended). In the loop of \<^verbatim>\<open>check_drop\<close> over the sensed items, for an item that
  passes the drop filter, has \<open>serial_lock\<close> 0, and for which an open task of the same
  model exists with the item's origin and with \<open>dest\<close> equal to the drop location \<open>d\<close>:
  the item is labeled correct, and the task bound is the first open task of the same model
  and origin whose \<open>dest\<close> is \<open>d\<close> or, when \<open>d\<close> is the NOE location 79, whatever its
  \<open>dest\<close>. That task gets the item's id, is marked complete with \<^verbatim>\<open>curr_loc_time\<close> as
  its finish time and is passed to \<^verbatim>\<open>save_task\<close>, which returns, after
  \<^verbatim>\<open>save_item_loc\<close> was called for the item and \<open>d\<close> (which sets the item's location
  in the store when queries are active).
\<close>

theorem drop_binds_first_admissible_task:
  assumes chk: "should_check_item_at_drop (ds_monitor ds) it"
    and lock: "serial_lock it = 0"
    and k: "k < length (tasks (ds_monitor ds))"
    and such: "\<not> task_complete (tasks (ds_monitor ds) ! k)"
      "task_model (tasks (ds_monitor ds) ! k) = item_model it"
      "task_origin (tasks (ds_monitor ds) ! k) = item_origin it"
      "task_dest (tasks (ds_monitor ds) ! k) = d"
  shows "\<exists>j\<le>k. \<exists>db'.
     (let m = ds_monitor ds; t = tasks m ! j; t' = finalize_task m t it
      in \<not> task_complete t \<and> task_model t = item_model it \<and> task_origin t = item_origin it \<and>
         (task_dest t = d \<or> d = NOE_loc) \<and>
         (\<forall>i<j. task_complete (tasks m ! i) \<or> task_model (tasks m ! i) \<noteq> item_model it \<or>
                 task_origin (tasks m ! i) \<noteq> item_origin it \<or>
                 (task_dest (tasks m ! i) \<noteq> d \<and> d \<noteq> NOE_loc)) \<and>
         save_task t' (save_item_loc it d (db_connection m)) = Inr db' \<and>
         classify_item d it ds =
           Inr (ds\<lparr>ds_monitor := m\<lparr>tasks := (tasks m)[j := t'], db_connection := db'\<rparr>,
                   correct_items := correct_items ds @ [it]\<rparr>) \<and>
         task_item_id t' = Some (item_id it) \<and> task_complete t' \<and>
         task_finish_time t' = Some (curr_loc_time m) \<and>
         calls db' = calls (db_connection m) @ [SaveItemLoc (item_id it) d, SaveTask t'] \<and>
         items db' =
           (if db_active (db_connection m)
            then map (\<lambda>r. if row_id r = item_id it then r\<lparr>row_curr_loc_id := d\<rparr> else r)
                   (items (db_connection m))
            else items (db_connection m)))"
proof -
  define m where "m = ds_monitor ds"
  define P where "P = (\<lambda>t :: task. \<not> task_complete t \<and> item_model it = task_model t \<and>
                          serial_lock it = 0 \<and> item_origin it = task_origin t \<and>
                          (d = task_dest t \<or> d = NOE_loc))"
  have sc: "scan_tasks it d (tasks m) 0 = first_index P (tasks m)"
    by (simp add: scan_tasks_first_index P_def option.map_ident)
  have Pk: "P (tasks m ! k)"
    using such lock by (simp add: P_def m_def)
  then have "first_index P (tasks m) \<noteq> None"
    using k by (auto simp: first_index_None m_def)
  then obtain j where j: "first_index P (tasks m) = Some j" by auto
  then have j1: "j < length (tasks m)" "P (tasks m ! j)" "\<forall>i<j. \<not> P (tasks m ! i)"
    by (simp_all add: first_index_Some)
  have jk: "j \<le> k"
  proof (rule ccontr)
    assume "\<not> j \<le> k"
    then have "k < j" by simp
    with j1(3) Pk show False by blast
  qed
  define t' where "t' = finalize_task m (tasks m ! j) it"
  define db' where
    "db' = (save_item_loc it d (db_connection m))
             \<lparr>calls := calls (save_item_loc it d (db_connection m)) @ [SaveTask t']\<rparr>"
  have sv: "save_task t' (save_item_loc it d (db_connection m)) = Inr db'"
    by (simp add: db'_def t'_def save_task_finalized)
  have c: "classify_item d it ds =
           Inr (ds\<lparr>ds_monitor := m\<lparr>tasks := (tasks m)[j := t'], db_connection := db'\<rparr>,
                   correct_items := correct_items ds @ [it]\<rparr>)"
    using chk sc j sv by (simp add: classify_item_def Let_def m_def t'_def)
  have f: "task_item_id t' = Some (item_id it) \<and> task_complete t' \<and>
           task_finish_time t' = Some (curr_loc_time m)"
    by (simp add: t'_def finalize_task_def)
  have w: "calls db' =
             calls (db_connection m) @ [SaveItemLoc (item_id it) d, SaveTask t'] \<and>
           items db' =
             (if db_active (db_connection m)
              then map (\<lambda>r. if row_id r = item_id it then r\<lparr>row_curr_loc_id := d\<rparr> else r)
                     (items (db_connection m))
              else items (db_connection m))"
    by (simp add: db'_def save_item_loc_def Let_def)
  have before: "\<forall>i<j. task_complete (tasks m ! i) \<or> task_model (tasks m ! i) \<noteq> item_model it \<or>
                 task_origin (tasks m ! i) \<noteq> item_origin it \<or>
                 (task_dest (tasks m ! i) \<noteq> d \<and> d \<noteq> NOE_loc)"
    using j1(3) lock by (auto simp: P_def)
  have at: "\<not> task_complete (tasks m ! j) \<and> task_model (tasks m ! j) = item_model it \<and>
            task_origin (tasks m ! j) = item_origin it \<and>
            (task_dest (tasks m ! j) = d \<or> d = NOE_loc)"
    using j1(2) by (auto simp: P_def)
  show ?thesis
    apply (simp only: Let_def)
    apply (rule exI [of _ j])
    apply (rule conjI [OF jk])
    apply (rule exI [of _ db'])
    apply (fold m_def)
    apply (fold t'_def)
    apply (insert at before sv c f w)
    apply (intro conjI)
    apply (elim conjE, assumption)+
    done
qed

text \<open>
  The drop at the NOE location 79 where the claim as first stated fails: the first open
  task of the item's model and origin with \<open>dest\<close> 79 is the second task; the loop
  binds the first task, whose \<open>dest\<close> is 5, and leaves the second as it was.
\<close>

theorem noe_drop_binds_another_task:
  "should_check_item_at_drop noe_monitor (demo_item 7 1) \<and>
   serial_lock (demo_item 7 1) = 0 \<and>
   tasks noe_monitor = [Task 1 ''A'' 1 5, Task 2 ''A'' 1 79] \<and>
   item_model (demo_item 7 1) = ''A'' \<and> item_origin (demo_item 7 1) = 1 \<and>
   classify_item 79 (demo_item 7 1) (fresh_labels noe_monitor) =
     Inr ((fresh_labels noe_monitor)
            \<lparr>ds_monitor :=
               noe_monitor
                 \<lparr>tasks := [finalize_task noe_monitor (Task 1 ''A'' 1 5) (demo_item 7 1),
                            Task 2 ''A'' 1 79],
                  db_connection :=
                    (save_item_loc (demo_item 7 1) 79 demo_store)
                      \<lparr>calls :=
                         [SaveItemLoc 7 79,
                          SaveTask (finalize_task noe_monitor (Task 1 ''A'' 1 5)
                                      (demo_item 7 1))]\<rparr>\<rparr>,
             correct_items := [demo_item 7 1]\<rparr>)"
  by (simp add: noe_monitor_def demo_monitor_def demo_store_def demo_item_def fresh_labels_def
      Task_def should_check_item_at_drop_def classify_item_def NOE_loc_def Let_def
      save_task_finalized save_item_loc_def)

theorem drop_binds_first_admissible_task_witness:
  "should_check_item_at_drop demo_monitor (demo_item 7 1) \<and>
   serial_lock (demo_item 7 1) = 0 \<and>
   \<not> task_complete (tasks demo_monitor ! 0) \<and>
   task_model (tasks demo_monitor ! 0) = item_model (demo_item 7 1) \<and>
   task_origin (tasks demo_monitor ! 0) = item_origin (demo_item 7 1) \<and>
   task_dest (tasks demo_monitor ! 0) = 2 \<and>
   (\<exists>ds'. classify_item 2 (demo_item 7 1) (fresh_labels demo_monitor) = Inr ds' \<and>
          correct_items ds' = [demo_item 7 1] \<and>
          task_item_id (tasks (ds_monitor ds') ! 0) = Some 7 \<and>
          task_complete (tasks (ds_monitor ds') ! 0) \<and>
          task_finish_time (tasks (ds_monitor ds') ! 0) = Some 10000000 \<and>
          calls (db_connection (ds_monitor ds')) =
            [SaveItemLoc 7 2, SaveTask (tasks (ds_monitor ds') ! 0)] \<and>
          map row_curr_loc_id (items (db_connection (ds_monitor ds'))) = [2, 1])"
  using drop_binds_first_admissible_task [of "fresh_labels demo_monitor" "demo_item 7 1" 0 2]
  by (simp add: demo_monitor_def demo_store_def demo_item_def fresh_labels_def Task_def
      should_check_item_at_drop_def classify_item_def NOE_loc_def finalize_task_def Let_def
      save_task_def save_item_loc_def get_task_avg_speed_def)
















section \<open>Verification: the swap of an allegedly wrong item\<close>

text \<open>
  \<^verbatim>\<open>get_model_alerts\<close> selects the column \<^verbatim>\<open>a.id\<close> alone, and
  \<^verbatim>\<open>check_alleged_wrong_item\<close> reads \<^verbatim>\<open>correct_loc_id\<close> and \<^verbatim>\<open>item_id\<close> from
  its rows. So the method confirms an item as wrong when the item is serial-locked, when
  no complete task of its model is bound to it, or when no alert matches
  (\<open>alleged_swap_confirms_wrong\<close>), and raises \<^verbatim>\<open>KeyError\<close> in every other case
  (\<open>alleged_swap_raises\<close>).
\<close>

lemma model_alert_rows:
  "row \<in> set (get_model_alerts db it) \<Longrightarrow>
   dict_get row ''correct_loc_id'' = Inl KeyError \<and> dict_get row ''item_id'' = Inl KeyError"
  by (auto simp: get_model_alerts_def dict_get_def)

lemma find_alert_to_cancel_raises:
  "rows \<noteq> [] \<Longrightarrow> dict_get (hd rows) ''correct_loc_id'' = Inl KeyError \<Longrightarrow>
   find_alert_to_cancel d rows = Inl KeyError"
  by (cases rows) simp_all

lemma alleged_swap_raises:
  assumes "serial_lock it = 0"
    and "first_index (\<lambda>t. task_model t = item_model it \<and> task_complete t \<and>
                           task_item_id t = Some (item_id it)) (tasks (ds_monitor ds)) = Some p"
    and "get_model_alerts (db_connection (ds_monitor ds)) it \<noteq> []"
  shows "check_alleged_wrong_item it d ds = Inl KeyError"
proof -
  from assms(3) have "hd (get_model_alerts (db_connection (ds_monitor ds)) it)
      \<in> set (get_model_alerts (db_connection (ds_monitor ds)) it)" by simp
  from model_alert_rows [OF this] assms show ?thesis
    by (simp add: check_alleged_wrong_item_def decide_swap_def Let_def
        find_alert_to_cancel_raises swap_item_def)
qed

lemma alleged_swap_confirms_wrong:
  assumes "serial_lock it \<noteq> 0 \<or>
           first_index (\<lambda>t. task_model t = item_model it \<and> task_complete t \<and>
                             task_item_id t = Some (item_id it)) (tasks (ds_monitor ds)) = None \<or>
           get_model_alerts (db_connection (ds_monitor ds)) it = []"
  shows "check_alleged_wrong_item it d ds = Inr (ds\<lparr>wrong_items := wrong_items ds @ [it]\<rparr>)"
  using assms
  by (auto simp: check_alleged_wrong_item_def decide_swap_def Let_def split: option.splits)

text \<open>
  C2 (the code fails the claim). Item 7, which closed the first task and is stored at
  location 2, is dropped at location 5, where the second task ends, while the alert of
  item 8 is active: the claim labels it correct. Dropped at location 1, the origin of
  the task it closed, the claim labels it returned. The method raises \<^verbatim>\<open>KeyError\<close>
  both times.
\<close>

theorem alleged_swap_raises_KeyError:
  "serial_lock (demo_item 7 2) = 0 \<and>
   tasks swap_monitor =
     [(Task 1 ''A'' 1 2)\<lparr>task_complete := True, task_item_id := Some 7\<rparr>, Task 2 ''A'' 1 5] \<and>
   get_model_alerts (db_connection swap_monitor) (demo_item 7 2) = [[(''id'', Some 1)]] \<and>
   check_alleged_wrong_item (demo_item 7 2) 5 (fresh_labels swap_monitor) = Inl KeyError \<and>
   check_alleged_wrong_item (demo_item 7 2) 1 (fresh_labels swap_monitor) = Inl KeyError"
  by (simp add: swap_monitor_def swap_store_def demo_monitor_def demo_store_def demo_item_def
      fresh_labels_def Task_def check_alleged_wrong_item_def decide_swap_def
      get_model_alerts_def Let_def dict_get_def swap_item_def)

text \<open>
  When \<^verbatim>\<open>check_drop\<close> returns, the pickup set is empty; it returns at least when every
  item is discarded by the filter.
\<close>

lemma check_drop_clears_pickup_ids:
  "check_drop d its m = Inr m' \<Longrightarrow> latest_pickup_item_ids m' = []"
  by (auto simp: check_drop_def check_drop_post_def split: sum.splits)

lemma classify_items_all_discarded:
  "\<forall>it \<in> set its. \<not> should_check_item_at_drop (ds_monitor ds) it \<Longrightarrow>
   classify_items d its ds = Inr ds"
  by (induction its) (simp_all add: classify_item_def)

text \<open>
  C10 (the code fails the claim). The same drop of item 7 at location 5, through
  \<^verbatim>\<open>check_drop\<close> and through the scenario player: the item passes the filter, no open
  task matches it, and the \<^verbatim>\<open>KeyError\<close> of \<^verbatim>\<open>check_alleged_wrong_item\<close> ends
  \<^verbatim>\<open>check_drop\<close> before \<^verbatim>\<open>check_job\<close> is called and before the pickup set is cleared.
\<close>

theorem check_drop_raises_KeyError:
  "get_item_data (db_connection swap_monitor) [7] = [demo_item 7 2] \<and>
   should_check_item_at_drop swap_monitor (demo_item 7 2) \<and>
   check_drop 5 [demo_item 7 2] swap_monitor = Inl KeyError \<and>
   apply_op (ScenarioDrop 40000000 5 [7]) (swap_monitor, demo_locals) = Inl KeyError"
  by (simp add: swap_monitor_def swap_store_def demo_monitor_def demo_store_def demo_item_def
      Task_def check_alleged_wrong_item_def decide_swap_def get_model_alerts_def Let_def
      dict_get_def check_drop_def classify_item_def should_check_item_at_drop_def
      apply_op_def simulate_drop_def get_item_data_def item_of_row_def NOE_loc_def)

end
